theory Spec2Isabelle
  imports Main "HOL-Library.Multiset"
begin

section \<open>The tenant registry of beezy-commerce-v2\<close>

text \<open>
  The development embeds \<^verbatim>\<open>apps/backend/src/modules/tenant/service.ts\<close>
  (\<^verbatim>\<open>TenantModuleService\<close>), the request middleware
  \<^verbatim>\<open>apps/backend/src/api/middlewares/tenant.ts\<close>, the
  \<^verbatim>\<open>PATCH /admin/tenants/:entityId\<close> handler and the \<^verbatim>\<open>POST /tenants\<close> handler of
  \<^verbatim>\<open>apps/backend/src/api/tenants/route.ts\<close>.

  All of them talk to the database through \<^verbatim>\<open>db.raw(sql, bindings)\<close>. The
  database is modelled as an explicit world: the content of the table
  \<^verbatim>\<open>public.tenants\<close>, the set of existing namespaces, the session's
  \<^verbatim>\<open>search_path\<close>, the engine's clock (what \<^verbatim>\<open>NOW()\<close> returns) and the
  sequence of statements issued so far. Each SQL text that occurs in the source is one
  constructor of \<open>stmt\<close>, and \<open>raw\<close> executes it. The table is the one declared by the
  \<^verbatim>\<open>CREATE TABLE\<close> text of the source: \<^verbatim>\<open>id\<close> is its primary key and
  \<^verbatim>\<open>entity_id\<close> and \<^verbatim>\<open>schema_name\<close> are \<^verbatim>\<open>UNIQUE\<close>, so an insert that
  repeats one of them is rejected; its columns are \<^verbatim>\<open>VARCHAR(255)\<close>, and
  \<^verbatim>\<open>status\<close> is \<^verbatim>\<open>VARCHAR(50)\<close>, so a longer value is rejected as well.

  Three statements interpolate a namespace name between double quotes into their text.
  A double quote in the name ends the quotable identifier early, and the statement is
  rejected as a syntax error; the query builder rewrites every question mark of a
  statement text into a numbered placeholder before sending it; and the engine keeps
  the first 63 characters of an identifier. \<open>namespaceOf\<close> is the namespace that such a
  text names.

  Strings are lists of characters, one per byte, as for ASCII text. Outside the model
  are connection failures, what a text with a double quote in the name does when it
  happens to parse, and the engine's exception for an over-long value whose excess
  consists of spaces only (it stores the value cut to the width; here it is rejected
  like every other over-long value). Rows with equal \<^verbatim>\<open>created_at\<close> come in table
  order from \<^verbatim>\<open>ORDER BY\<close>; the engine leaves their order open.

  A call of an \<^verbatim>\<open>async\<close> function is a function from the world to an outcome and the
  world after it; the outcome is \<open>Inl\<close> of the error when the promise rejects. The
  world after a rejection keeps what the statements before it have done.
\<close>

subsection \<open>Data model\<close>

text \<open>A row of \<^verbatim>\<open>public.tenants\<close>; \<open>id_col\<close> is the column \<^verbatim>\<open>id\<close> and
  \<open>status_col\<close> the column \<^verbatim>\<open>status\<close> (a \<^verbatim>\<open>VARCHAR\<close>). Timestamps are integers.\<close>

record tenant_row =
  id_col :: string
  entity_id :: string
  entity_name :: string
  schema_name :: string
  status_col :: string
  created_at :: int
  updated_at :: int

text \<open>\<^verbatim>\<open>interface CreateTenantInput\<close> and \<^verbatim>\<open>interface TenantData\<close>; the field
  \<^verbatim>\<open>id\<close> is \<open>id'\<close> here.\<close>

record CreateTenantInput =
  entityId :: string
  entityName :: string

text \<open>The body of a \<^verbatim>\<open>PATCH\<close> request (both fields optional), and the tenant context
  that the middleware puts on a request (\<^verbatim>\<open>req.tenant\<close>).\<close>

record PatchBody =
  entityName :: "string option"
  status :: "string option"

record RequestTenant =
  id' :: string
  entityId :: string
  entityName :: string
  schemaName :: string

record TenantData =
  id' :: string
  entityId :: string
  entityName :: string
  schemaName :: string
  status :: string
  createdAt :: int
  updatedAt :: int

text \<open>One assignment of an \<^verbatim>\<open>UPDATE ... SET\<close> list.\<close>

datatype assignment =
    SetEntityName string
  | SetStatus string
  | SetUpdatedAtNow

text \<open>The SQL statements of the source, with their bindings.\<close>

datatype stmt =
    SelectByEntityId string
  | SelectBySchemaName string
  | SelectActiveByEntityId string
  | SelectAllOrderByCreatedAtDesc
  | CreateSchemaIfNotExists string
  | InsertTenant string string string string
  | InsertTenantOnConflictEntityId string string string string
  | UpdateTenants "assignment list" string
  | DropSchemaIfExistsCascade string
  | DeleteByEntityId string
  | SetSearchPathTo string
  | SetSearchPathPublic

text \<open>What a promise rejects with: the engine's errors (a violated constraint, by its
  name; a value too long for its column; a statement that does not parse) and the
  \<^verbatim>\<open>TypeError\<close> of reading a field of \<^verbatim>\<open>undefined\<close>.\<close>

datatype error =
    UniqueViolation string
  | StringDataRightTruncation
  | SyntaxError
  | TypeError

record world =
  tenants :: "tenant_row list"
  schemas :: "string set"
  search_path :: "string list"
  clock :: int
  issued :: "stmt list"

type_synonym 'a promise = "world \<Rightarrow> (error + 'a) \<times> world"

subsection \<open>The storage engine\<close>

text \<open>\<^verbatim>\<open>await\<close>: run a promise, stop at a rejection, otherwise continue with its value.\<close>

definition await :: "'a promise \<Rightarrow> ('a \<Rightarrow> 'b promise) \<Rightarrow> 'b promise" where
  "await m f w = (case m w of (Inl err, w1) \<Rightarrow> (Inl err, w1) | (Inr a, w1) \<Rightarrow> f a w1)"

definition resolve :: "'a \<Rightarrow> 'a promise" where
  "resolve a w = (Inr a, w)"

definition reject :: "error \<Rightarrow> 'a promise" where
  "reject err w = (Inl err, w)"

text \<open>The constraint a new row would violate, if any: primary key first, then the two
  \<^verbatim>\<open>UNIQUE\<close> columns.\<close>

definition violated :: "tenant_row list \<Rightarrow> tenant_row \<Rightarrow> string option" where
  "violated rows new =
     (if id_col new \<in> id_col ` set rows then Some ''tenants_pkey''
      else if entity_id new \<in> entity_id ` set rows then Some ''tenants_entity_id_key''
      else if schema_name new \<in> schema_name ` set rows then Some ''tenants_schema_name_key''
      else None)"

text \<open>The widths of the columns: a row whose \<^verbatim>\<open>id\<close>, \<^verbatim>\<open>entity_id\<close>,
  \<^verbatim>\<open>entity_name\<close> or \<^verbatim>\<open>schema_name\<close> has more than 255 characters, or whose
  \<^verbatim>\<open>status\<close> has more than 50, is not stored.\<close>

definition tooLong :: "tenant_row \<Rightarrow> bool" where
  "tooLong r \<longleftrightarrow>
     255 < length (id_col r) \<or> 255 < length (entity_id r) \<or> 255 < length (entity_name r) \<or>
     255 < length (schema_name r) \<or> 50 < length (status_col r)"

text \<open>Why the engine refuses to store a new row, if it does: the widths are checked when
  the values are converted, before the constraints.\<close>

definition refused :: "tenant_row list \<Rightarrow> tenant_row \<Rightarrow> error option" where
  "refused rows new =
     (if tooLong new then Some StringDataRightTruncation
      else map_option UniqueViolation (violated rows new))"

text \<open>The values of a \<^verbatim>\<open>SET\<close> list are converted to their columns before any row is
  looked at.\<close>

fun fits :: "assignment \<Rightarrow> bool" where
  "fits (SetEntityName n) \<longleftrightarrow> length n \<le> 255"
| "fits (SetStatus s) \<longleftrightarrow> length s \<le> 50"
| "fits SetUpdatedAtNow \<longleftrightarrow> True"

text \<open>The query builder's \<^verbatim>\<open>positionBindings\<close>, applied to every statement text:
  \<^verbatim>\<open>sql.replace(/(\\*)(\?)/g, ...)\<close> turns a question mark after an even number of
  backslashes into \<^verbatim>\<open>$1\<close>, \<^verbatim>\<open>$2\<close>, ... and a question mark after an odd number
  into a plain question mark, dropping the backslashes either way. \<open>k\<close> counts the
  backslashes just read, \<open>q\<close> the placeholders made so far.\<close>

definition digit :: "nat \<Rightarrow> char" where
  "digit n = ''0123456789'' ! (n mod 10)"

fun decimal :: "nat \<Rightarrow> string" where
  "decimal n = (if n < 10 then [digit n] else decimal (n div 10) @ [digit n])"

declare decimal.simps [simp del]

fun positionBindings :: "nat \<Rightarrow> nat \<Rightarrow> string \<Rightarrow> string" where
  "positionBindings k q [] = replicate k (CHR 0x5C)"
| "positionBindings k q (c # cs) =
     (if c = CHR 0x5C then positionBindings (Suc k) q cs
      else if c = CHR ''?''
      then (if odd k then CHR ''?'' # positionBindings 0 q cs
            else CHR ''$'' # decimal (Suc q) @ positionBindings 0 (Suc q) cs)
      else replicate k (CHR 0x5C) @ c # positionBindings 0 q cs)"

text \<open>The namespace that a statement names with \<^verbatim>\<open>"${name}"\<close> in its text, when the
  name has no double quote.\<close>

definition namespaceOf :: "string \<Rightarrow> string" where
  "namespaceOf name = take 63 (positionBindings 0 0 name)"

definition quotable :: "string \<Rightarrow> bool" where
  "quotable name \<longleftrightarrow> CHR 0x22 \<notin> set name"

text \<open>The row that \<^verbatim>\<open>VALUES (?, ?, ?, ?, 'active')\<close> makes; \<^verbatim>\<open>created_at\<close> and
  \<^verbatim>\<open>updated_at\<close> take their default \<^verbatim>\<open>NOW()\<close>.\<close>

definition new_row :: "int \<Rightarrow> string \<Rightarrow> string \<Rightarrow> string \<Rightarrow> string \<Rightarrow> tenant_row" where
  "new_row now i e n s =
     \<lparr>id_col = i, entity_id = e, entity_name = n, schema_name = s,
      status_col = ''active'', created_at = now, updated_at = now\<rparr>"

fun assign :: "int \<Rightarrow> assignment \<Rightarrow> tenant_row \<Rightarrow> tenant_row" where
  "assign now (SetEntityName n) r = r\<lparr>entity_name := n\<rparr>"
| "assign now (SetStatus s) r = r\<lparr>status_col := s\<rparr>"
| "assign now SetUpdatedAtNow r = r\<lparr>updated_at := now\<rparr>"

text \<open>All assignments of a \<^verbatim>\<open>SET\<close> list, in order.\<close>

fun assign_all :: "int \<Rightarrow> assignment list \<Rightarrow> tenant_row \<Rightarrow> tenant_row" where
  "assign_all now [] r = r"
| "assign_all now (a # as) r = assign_all now as (assign now a r)"

text \<open>What a statement does to the stored data, and the rows it returns.\<close>

fun exec :: "stmt \<Rightarrow> world \<Rightarrow> (error + tenant_row list) \<times> world" where
  "exec (SelectByEntityId e) w = (Inr (filter (\<lambda>r. entity_id r = e) (tenants w)), w)"
| "exec (SelectBySchemaName s) w = (Inr (filter (\<lambda>r. schema_name r = s) (tenants w)), w)"
| "exec (SelectActiveByEntityId e) w =
     (Inr (filter (\<lambda>r. entity_id r = e \<and> status_col r = ''active'') (tenants w)), w)"
| "exec SelectAllOrderByCreatedAtDesc w =
     (Inr (sort_key (\<lambda>r. - created_at r) (tenants w)), w)"
| "exec (CreateSchemaIfNotExists s) w =
     (if quotable s then (Inr [], w\<lparr>schemas := insert (namespaceOf s) (schemas w)\<rparr>)
      else (Inl SyntaxError, w))"
| "exec (InsertTenant i e n s) w =
     (case refused (tenants w) (new_row (clock w) i e n s) of
        Some err \<Rightarrow> (Inl err, w)
      | None \<Rightarrow> (Inr [], w\<lparr>tenants := tenants w @ [new_row (clock w) i e n s]\<rparr>))"
| "exec (InsertTenantOnConflictEntityId i e n s) w =
     (if tooLong (new_row (clock w) i e n s) then (Inl StringDataRightTruncation, w)
      else if e \<in> entity_id ` set (tenants w)
      then (Inr [], w\<lparr>tenants :=
              map (\<lambda>r. if entity_id r = e
                        then r\<lparr>entity_name := n, updated_at := clock w\<rparr> else r) (tenants w)\<rparr>)
      else (case refused (tenants w) (new_row (clock w) i e n s) of
              Some err \<Rightarrow> (Inl err, w)
            | None \<Rightarrow> (Inr [], w\<lparr>tenants := tenants w @ [new_row (clock w) i e n s]\<rparr>)))"
| "exec (UpdateTenants sets e) w =
     (if list_all fits sets
      then (Inr [], w\<lparr>tenants :=
              map (\<lambda>r. if entity_id r = e then assign_all (clock w) sets r else r) (tenants w)\<rparr>)
      else (Inl StringDataRightTruncation, w))"
| "exec (DropSchemaIfExistsCascade s) w =
     (if quotable s then (Inr [], w\<lparr>schemas := schemas w - {namespaceOf s}\<rparr>)
      else (Inl SyntaxError, w))"
| "exec (DeleteByEntityId e) w =
     (Inr [], w\<lparr>tenants := filter (\<lambda>r. entity_id r \<noteq> e) (tenants w)\<rparr>)"
| "exec (SetSearchPathTo s) w =
     (if quotable s then (Inr [], w\<lparr>search_path := [namespaceOf s, ''public'']\<rparr>)
      else (Inl SyntaxError, w))"
| "exec SetSearchPathPublic w = (Inr [], w\<lparr>search_path := [''public'']\<rparr>)"

text \<open>\<^verbatim>\<open>db.raw\<close>: the statement is issued (and recorded), then executed.\<close>

definition raw :: "stmt \<Rightarrow> (tenant_row list) promise" where
  "raw q w = exec q (w\<lparr>issued := issued w @ [q]\<rparr>)"

text \<open>The statements that can change stored data.\<close>

fun mutating :: "stmt \<Rightarrow> bool" where
  "mutating (SelectByEntityId e) = False"
| "mutating (SelectBySchemaName s) = False"
| "mutating (SelectActiveByEntityId e) = False"
| "mutating SelectAllOrderByCreatedAtDesc = False"
| "mutating q = True"

subsection \<open>TenantModuleService\<close>

text \<open>\<^verbatim>\<open>entityId.replace(/-/g, '_')\<close>.\<close>

fun replaceHyphens :: "string \<Rightarrow> string" where
  "replaceHyphens [] = []"
| "replaceHyphens (c # cs) = (if c = CHR ''-'' then CHR ''_'' else c) # replaceHyphens cs"

definition tenantIdOf :: "string \<Rightarrow> string" where
  "tenantIdOf e = ''tenant_'' @ e"

definition schemaNameOf :: "string \<Rightarrow> string" where
  "schemaNameOf e = ''tenant_entity_'' @ replaceHyphens e"

text \<open>The object literal that every lookup builds from a row.\<close>

definition toTenantData :: "tenant_row \<Rightarrow> TenantData" where
  "toTenantData row =
     \<lparr>id' = id_col row, entityId = entity_id row, entityName = entity_name row,
      schemaName = schema_name row, status = status_col row,
      createdAt = created_at row, updatedAt = updated_at row\<rparr>"

text \<open>\<^verbatim>\<open>result.rows?.[0]\<close>, then \<^verbatim>\<open>if (!row) return null\<close>.\<close>

fun firstRow :: "tenant_row list \<Rightarrow> TenantData option" where
  "firstRow [] = None"
| "firstRow (row # rest) = Some (toTenantData row)"

definition getTenantByEntityId :: "string \<Rightarrow> (TenantData option) promise" where
  "getTenantByEntityId e = await (raw (SelectByEntityId e)) (\<lambda>rows. resolve (firstRow rows))"

definition getTenantBySchemaName :: "string \<Rightarrow> (TenantData option) promise" where
  "getTenantBySchemaName s = await (raw (SelectBySchemaName s)) (\<lambda>rows. resolve (firstRow rows))"

definition listTenants :: "(TenantData list) promise" where
  "listTenants = await (raw SelectAllOrderByCreatedAtDesc) (\<lambda>rows. resolve (map toTenantData rows))"

text \<open>\<^verbatim>\<open>createTenant\<close>. Its last line casts the result of the lookup, so the value it
  resolves to is an optional \<open>TenantData\<close>.\<close>

definition createTenant :: "CreateTenantInput \<Rightarrow> (TenantData option) promise" where
  "createTenant input =
     (let e = CreateTenantInput.entityId input;
          n = CreateTenantInput.entityName input;
          i = tenantIdOf e;
          s = schemaNameOf e
      in await (getTenantByEntityId e) (\<lambda>existing.
           case existing of
             Some t \<Rightarrow> resolve (Some t)
           | None \<Rightarrow>
               await (raw (CreateSchemaIfNotExists s)) (\<lambda>_.
               await (raw (InsertTenantOnConflictEntityId i e n s)) (\<lambda>_.
               getTenantByEntityId e))))"

definition updateTenantStatus :: "string \<Rightarrow> string \<Rightarrow> (TenantData option) promise" where
  "updateTenantStatus e st =
     await (raw (UpdateTenants [SetStatus st, SetUpdatedAtNow] e)) (\<lambda>_. getTenantByEntityId e)"

definition deleteTenant :: "string \<Rightarrow> bool promise" where
  "deleteTenant e =
     await (getTenantByEntityId e) (\<lambda>tenant.
       case tenant of
         None \<Rightarrow> resolve False
       | Some t \<Rightarrow>
           await (raw (DropSchemaIfExistsCascade (schemaName t))) (\<lambda>_.
           await (raw (DeleteByEntityId e)) (\<lambda>_.
           resolve True)))"

definition switchToTenantSchema :: "string \<Rightarrow> unit promise" where
  "switchToTenantSchema s = await (raw (SetSearchPathTo s)) (\<lambda>_. resolve ())"

definition resetToPublicSchema :: "unit promise" where
  "resetToPublicSchema = await (raw SetSearchPathPublic) (\<lambda>_. resolve ())"

subsection \<open>The tenant middleware\<close>

text \<open>What the middleware reads of a request: the header \<^verbatim>\<open>x-tenant-id\<close> and the
  cookie \<^verbatim>\<open>tenant_id\<close>; \<open>None\<close> is \<^verbatim>\<open>undefined\<close>.\<close>

record request =
  header_x_tenant_id :: "string option"
  cookie_tenant_id :: "string option"

text \<open>What it leaves behind: \<^verbatim>\<open>req.tenant\<close>, and whether the handler that resets the
  \<^verbatim>\<open>search_path\<close> when the response finishes was registered. \<^verbatim>\<open>next()\<close> is called on
  every path.\<close>

record binding =
  tenant :: "RequestTenant option"
  resetOnFinish :: bool

text \<open>JavaScript's \<^verbatim>\<open>a || b\<close> on optional strings: the empty string is falsy.\<close>

fun orElse :: "string option \<Rightarrow> string option \<Rightarrow> string option" where
  "orElse None b = b"
| "orElse (Some a) b = (if a = [] then b else Some a)"

definition unbound :: binding where
  "unbound = \<lparr>tenant = None, resetOnFinish = False\<rparr>"

definition requestTenant :: "tenant_row \<Rightarrow> RequestTenant" where
  "requestTenant t =
     \<lparr>RequestTenant.id' = id_col t, RequestTenant.entityId = entity_id t,
      RequestTenant.entityName = entity_name t, RequestTenant.schemaName = schema_name t\<rparr>"

text \<open>\<^verbatim>\<open>tenantMiddleware\<close>. A rejected statement is caught and the request goes on;
  \<^verbatim>\<open>req.tenant\<close> is assigned before the \<^verbatim>\<open>search_path\<close> is set.\<close>

definition tenantMiddleware :: "request \<Rightarrow> world \<Rightarrow> binding \<times> world" where
  "tenantMiddleware req w =
     (case orElse (header_x_tenant_id req) (cookie_tenant_id req) of
        None \<Rightarrow> (unbound, w)
      | Some tenantId \<Rightarrow>
          if tenantId = [] then (unbound, w)
          else (case raw (SelectActiveByEntityId tenantId) w of
                  (Inl err, w1) \<Rightarrow> (unbound, w1)
                | (Inr [], w1) \<Rightarrow> (unbound, w1)
                | (Inr (t # rest), w1) \<Rightarrow>
                    (case raw (SetSearchPathTo (schema_name t)) w1 of
                       (Inl err, w2) \<Rightarrow>
                         (\<lparr>tenant = Some (requestTenant t), resetOnFinish = False\<rparr>, w2)
                     | (Inr _, w2) \<Rightarrow>
                         (\<lparr>tenant = Some (requestTenant t), resetOnFinish = True\<rparr>, w2))))"

text \<open>The handler registered on \<^verbatim>\<open>finish\<close>; it ignores a rejection.\<close>

definition onFinish :: "world \<Rightarrow> world" where
  "onFinish w = snd (raw SetSearchPathPublic w)"

subsection \<open>PATCH /admin/tenants/:entityId\<close>

text \<open>The JSON bodies of the responses: an \<^verbatim>\<open>error\<close> text, the message of a caught
  error, a full tenant, and the five fields \<^verbatim>\<open>id\<close>, \<^verbatim>\<open>entityId\<close>, \<^verbatim>\<open>entityName\<close>,
  \<^verbatim>\<open>schemaName\<close>, \<^verbatim>\<open>status\<close> together with a \<^verbatim>\<open>message\<close>.\<close>

datatype body =
    ErrorMessage string
  | ErrorOf error
  | TenantBody TenantData
  | TenantSummary string string string string string string

record response =
  statusCode :: nat
  json :: body

text \<open>\<^verbatim>\<open>if (x) { updates.push(...); values.push(x) }\<close> for an optional string \<open>x\<close>.\<close>

fun pushIf :: "string option \<Rightarrow> (string \<Rightarrow> assignment) \<Rightarrow> assignment list" where
  "pushIf None f = []"
| "pushIf (Some x) f = (if x = [] then [] else [f x])"

definition patchTenant :: "string \<Rightarrow> PatchBody \<Rightarrow> response promise" where
  "patchTenant e b =
     await (raw (SelectByEntityId e)) (\<lambda>existing.
       if existing = [] then resolve \<lparr>statusCode = 404, json = ErrorMessage ''Tenant not found''\<rparr>
       else
         (let updates = pushIf (PatchBody.entityName b) SetEntityName
                        @ pushIf (PatchBody.status b) SetStatus
          in await (if updates \<noteq> []
                    then raw (UpdateTenants (updates @ [SetUpdatedAtNow]) e)
                    else resolve [])
               (\<lambda>_. await (raw (SelectByEntityId e)) (\<lambda>rows.
                  case rows of
                    [] \<Rightarrow> reject TypeError
                  | row # rest \<Rightarrow>
                      resolve \<lparr>statusCode = 200, json = TenantBody (toTenantData row)\<rparr>))))"

text \<open>The handler \<^verbatim>\<open>PATCH\<close>: the body above inside \<^verbatim>\<open>try\<close>, and the
  \<^verbatim>\<open>catch\<close> that answers 500.\<close>

definition PATCH :: "string \<Rightarrow> PatchBody \<Rightarrow> world \<Rightarrow> response \<times> world" where
  "PATCH e b w =
     (case patchTenant e b w of
        (Inr res, w1) \<Rightarrow> (res, w1)
      | (Inl err, w1) \<Rightarrow> (\<lparr>statusCode = 500, json = ErrorOf err\<rparr>, w1))"

subsection \<open>POST /tenants\<close>

text \<open>\<^verbatim>\<open>verifyAdminKey\<close>: the header \<^verbatim>\<open>x-admin-key\<close> against
  \<^verbatim>\<open>process.env.BEEZY_SSO_SECRET || 'beezy-sso-shared-secret'\<close>.\<close>

definition verifyAdminKey :: "string option \<Rightarrow> string option \<Rightarrow> bool" where
  "verifyAdminKey env adminKey \<longleftrightarrow> adminKey = orElse env (Some ''beezy-sso-shared-secret'')"

text \<open>The body of the \<^verbatim>\<open>try\<close> block; the two arguments are the fields of the request
  body.\<close>

definition postTenant :: "string option \<Rightarrow> string option \<Rightarrow> response promise" where
  "postTenant bodyEntityId bodyEntityName =
     (case (bodyEntityId, bodyEntityName) of
        (Some e, Some n) \<Rightarrow>
          if e = [] \<or> n = []
          then resolve \<lparr>statusCode = 400,
                        json = ErrorMessage ''entityId and entityName are required''\<rparr>
          else
            (let i = ''tenant_'' @ e; s = ''tenant_entity_'' @ replaceHyphens e
             in await (raw (SelectByEntityId e)) (\<lambda>existing.
                  case existing of
                    row # rest \<Rightarrow>
                      resolve \<lparr>statusCode = 200,
                               json = TenantSummary (id_col row) (entity_id row) (entity_name row)
                                        (schema_name row) (status_col row) ''Tenant already exists''\<rparr>
                  | [] \<Rightarrow>
                      await (raw (CreateSchemaIfNotExists s)) (\<lambda>_.
                      await (raw (InsertTenant i e n s)) (\<lambda>_.
                      resolve \<lparr>statusCode = 201,
                               json = TenantSummary i e n s ''active''
                                        ''Tenant created successfully''\<rparr>))))
      | _ \<Rightarrow> resolve \<lparr>statusCode = 400,
                        json = ErrorMessage ''entityId and entityName are required''\<rparr>)"

definition POST ::
    "string option \<Rightarrow> string option \<Rightarrow> string option \<Rightarrow> string option \<Rightarrow> world \<Rightarrow> response \<times> world"
  where
  "POST env adminKey bodyEntityId bodyEntityName w =
     (if \<not> verifyAdminKey env adminKey
      then (\<lparr>statusCode = 401, json = ErrorMessage ''Invalid admin key''\<rparr>, w)
      else (case postTenant bodyEntityId bodyEntityName w of
              (Inr res, w1) \<Rightarrow> (res, w1)
            | (Inl err, w1) \<Rightarrow> (\<lparr>statusCode = 500, json = ErrorOf err\<rparr>, w1)))"

subsection \<open>Invariants of the table\<close>

text \<open>The constraints of the \<^verbatim>\<open>CREATE TABLE\<close> text.\<close>

definition constraints :: "world \<Rightarrow> bool" where
  "constraints w \<longleftrightarrow>
     distinct (map id_col (tenants w)) \<and>
     distinct (map entity_id (tenants w)) \<and>
     distinct (map schema_name (tenants w))"

text \<open>Every row carries the identifiers that \<^verbatim>\<open>createTenant\<close> derives from its
  \<^verbatim>\<open>entity_id\<close>.\<close>

definition derived :: "world \<Rightarrow> bool" where
  "derived w \<longleftrightarrow>
     (\<forall>r \<in> set (tenants w).
        id_col r = tenantIdOf (entity_id r) \<and> schema_name r = schemaNameOf (entity_id r))"

text \<open>Alphanumerics and hyphens only, and not empty.\<close>

definition alphanumeric :: "char \<Rightarrow> bool" where
  "alphanumeric c \<longleftrightarrow>
     c \<in> set (''abcdefghijklmnopqrstuvwxyz'' @ ''ABCDEFGHIJKLMNOPQRSTUVWXYZ'' @ ''0123456789'')"

definition validEntityId :: "string \<Rightarrow> bool" where
  "validEntityId e \<longleftrightarrow> e \<noteq> [] \<and> (\<forall>c \<in> set e. alphanumeric c \<or> c = CHR ''-'')"

text \<open>No stored \<^verbatim>\<open>schema_name\<close> has a double quote: a row is inserted only after
  \<^verbatim>\<open>CREATE SCHEMA\<close> has accepted the name.\<close>

definition named :: "world \<Rightarrow> bool" where
  "named w \<longleftrightarrow> (\<forall>r \<in> set (tenants w). quotable (schema_name r))"

definition consistent :: "world \<Rightarrow> bool" where
  "consistent w \<longleftrightarrow> constraints w \<and> derived w \<and> named w"

text \<open>An insert whose \<^verbatim>\<open>id\<close> and \<^verbatim>\<open>schema_name\<close> bindings are the ones derived from its
  \<^verbatim>\<open>entity_id\<close> binding, the derived name having no double quote.\<close>

fun deriving :: "stmt \<Rightarrow> bool" where
  "deriving (InsertTenant i e n s) \<longleftrightarrow>
     i = tenantIdOf e \<and> s = schemaNameOf e \<and> quotable s"
| "deriving (InsertTenantOnConflictEntityId i e n s) \<longleftrightarrow>
     i = tenantIdOf e \<and> s = schemaNameOf e \<and> quotable s"
| "deriving q \<longleftrightarrow> True"

text \<open>The worlds that the operations above reach from an empty table, with the clock
  moving freely between them.\<close>

inductive reachable :: "world \<Rightarrow> bool" where
  initial: "tenants w = [] \<Longrightarrow> reachable w"
| elapse: "reachable w \<Longrightarrow> reachable (w\<lparr>clock := c\<rparr>)"
| createTenant: "reachable w \<Longrightarrow> reachable (snd (createTenant input w))"
| getTenantByEntityId: "reachable w \<Longrightarrow> reachable (snd (getTenantByEntityId e w))"
| getTenantBySchemaName: "reachable w \<Longrightarrow> reachable (snd (getTenantBySchemaName s w))"
| listTenants: "reachable w \<Longrightarrow> reachable (snd (listTenants w))"
| updateTenantStatus: "reachable w \<Longrightarrow> reachable (snd (updateTenantStatus e st w))"
| deleteTenant: "reachable w \<Longrightarrow> reachable (snd (deleteTenant e w))"
| switchToTenantSchema: "reachable w \<Longrightarrow> reachable (snd (switchToTenantSchema s w))"
| resetToPublicSchema: "reachable w \<Longrightarrow> reachable (snd (resetToPublicSchema w))"
| tenantMiddleware: "reachable w \<Longrightarrow> reachable (snd (tenantMiddleware req w))"
| onFinish: "reachable w \<Longrightarrow> reachable (onFinish w)"
| PATCH: "reachable w \<Longrightarrow> reachable (snd (PATCH e b w))"
| POST: "reachable w \<Longrightarrow> reachable (snd (POST env adminKey bodyEntityId bodyEntityName w))"

subsection \<open>Example registries\<close>

text \<open>The registry on a fresh database, right after \<^verbatim>\<open>initializeTenantSystem\<close>:
  an empty table, no tenant namespace, the default \<^verbatim>\<open>search_path\<close>.\<close>

definition emptyRegistry :: world where
  "emptyRegistry =
     \<lparr>tenants = [], schemas = {}, search_path = [''public''], clock = 0, issued = []\<rparr>"

text \<open>Two tenants as \<^verbatim>\<open>createTenant\<close> stores them, and registries holding them.\<close>

definition acme :: tenant_row where
  "acme = \<lparr>id_col = ''tenant_acme-1'', entity_id = ''acme-1'', entity_name = ''Acme Co'',
            schema_name = ''tenant_entity_acme_1'', status_col = ''active'',
            created_at = 0, updated_at = 0\<rparr>"

definition globex :: tenant_row where
  "globex = \<lparr>id_col = ''tenant_globex'', entity_id = ''globex'', entity_name = ''Globex'',
              schema_name = ''tenant_entity_globex'', status_col = ''active'',
              created_at = 5, updated_at = 5\<rparr>"

definition acmeRegistry :: world where
  "acmeRegistry =
     \<lparr>tenants = [acme], schemas = {''tenant_entity_acme_1''}, search_path = [''public''],
      clock = 9, issued = []\<rparr>"

definition pairRegistry :: world where
  "pairRegistry =
     \<lparr>tenants = [acme, globex], schemas = {''tenant_entity_acme_1'', ''tenant_entity_globex''},
      search_path = [''public''], clock = 9, issued = []\<rparr>"

text \<open>Registries reached from the empty one: after \<^verbatim>\<open>createTenant\<close> for \<^verbatim>\<open>acme-1\<close>;
  after a second one for \<^verbatim>\<open>globex\<close> at time 5; and after \<^verbatim>\<open>createTenant\<close> for
  \<^verbatim>\<open>a_b\<close>, an \<^verbatim>\<open>entityId\<close> with an underscore.\<close>

definition acmeCreated :: world where
  "acmeCreated =
     snd (createTenant \<lparr>CreateTenantInput.entityId = ''acme-1'', entityName = ''Acme Co''\<rparr>
            emptyRegistry)"

definition pairCreated :: world where
  "pairCreated =
     snd (createTenant \<lparr>CreateTenantInput.entityId = ''globex'', entityName = ''Globex''\<rparr>
            (acmeCreated\<lparr>clock := 5\<rparr>))"

definition underscoreCreated :: world where
  "underscoreCreated =
     snd (createTenant \<lparr>CreateTenantInput.entityId = ''a_b'', entityName = ''A''\<rparr> emptyRegistry)"

text \<open>A request that carries \<^verbatim>\<open>acme-1\<close> in its cookie; the registry after the middleware
  has bound such a request, whose response has not finished; and that registry after
  the tenant has then been set inactive.\<close>

definition acmeRequest :: request where
  "acmeRequest = \<lparr>header_x_tenant_id = None, cookie_tenant_id = Some ''acme-1''\<rparr>"

definition acmeBound :: world where
  "acmeBound = snd (tenantMiddleware acmeRequest acmeCreated)"

definition acmeBoundInactive :: world where
  "acmeBoundInactive = snd (updateTenantStatus ''acme-1'' ''inactive'' acmeBound)"

section \<open>Properties\<close>

subsection \<open>Keys and the sanitization\<close>

lemma filter_key_unique:
  "distinct (map f xs) \<Longrightarrow> x \<in> set xs \<Longrightarrow> filter (\<lambda>y. f y = f x) xs = [x]"
proof (induction xs)
  case Nil
  then show ?case by simp
next
  case (Cons a xs)
  then show ?case by (auto simp: image_iff filter_empty_conv)
qed

lemma filter_key_absent:
  "k \<notin> f ` set xs \<Longrightarrow> filter (\<lambda>y. f y = k) xs = []"
  by (auto simp: filter_empty_conv)

lemma filter_Cons_mem:
  assumes "filter P xs = r # rest"
  shows "r \<in> set xs \<and> P r"
proof -
  from assms have "r \<in> set (filter P xs)" by simp
  then show ?thesis by simp
qed

lemma filter_present:
  assumes "e \<in> entity_id ` set rows"
  obtains r rest where "filter (\<lambda>r. entity_id r = e) rows = r # rest"
  using assms by (cases "filter (\<lambda>r. entity_id r = e) rows") (auto simp: filter_empty_conv)

lemma filter_map_same_key:
  assumes "\<And>r. entity_id (f r) = entity_id r"
  shows "filter (\<lambda>r. entity_id r = e) (map (\<lambda>r. if entity_id r = e then f r else r) rows) =
           map f (filter (\<lambda>r. entity_id r = e) rows)"
  using assms by (induction rows) auto

lemma map_other_rows:
  "e \<notin> entity_id ` set rows \<Longrightarrow> map (\<lambda>r. if entity_id r = e then f r else r) rows = rows"
  by (induction rows) auto

lemma replaceHyphens_map:
  "replaceHyphens e = map (\<lambda>c. if c = CHR ''-'' then CHR ''_'' else c) e"
  by (induction e) simp_all

lemma length_replaceHyphens: "length (replaceHyphens e) = length e"
  by (simp add: replaceHyphens_map)

lemma alphanumeric_not_underscore: "alphanumeric c \<Longrightarrow> c \<noteq> CHR ''_''"
  by (auto simp: alphanumeric_def)

lemma alphanumeric_not_quote: "alphanumeric c \<Longrightarrow> c \<noteq> CHR 0x22"
  by (auto simp: alphanumeric_def)

lemma replaceHyphens_inj:
  "CHR ''_'' \<notin> set a \<Longrightarrow> CHR ''_'' \<notin> set b \<Longrightarrow> replaceHyphens a = replaceHyphens b \<Longrightarrow> a = b"
proof (induction a arbitrary: b)
  case Nil
  then show ?case by (cases b) simp_all
next
  case (Cons x xs)
  then obtain y ys where b: "b = y # ys" by (cases b) auto
  with Cons.prems have "x = y" by (auto split: if_splits)
  moreover from Cons b have "xs = ys" by (auto split: if_splits)
  ultimately show ?case using b by simp
qed

lemma valid_no_underscore: "validEntityId e \<Longrightarrow> CHR ''_'' \<notin> set e"
  by (auto simp: validEntityId_def dest: alphanumeric_not_underscore)

lemma schemaNameOf_inj_valid:
  "validEntityId a \<Longrightarrow> validEntityId b \<Longrightarrow> schemaNameOf a = schemaNameOf b \<Longrightarrow> a = b"
  by (auto simp: schemaNameOf_def dest!: valid_no_underscore intro: replaceHyphens_inj)

text \<open>The name derived from an \<^verbatim>\<open>entityId\<close> of alphanumerics and hyphens has no double
  quote.\<close>

lemma valid_quotable: "validEntityId e \<Longrightarrow> quotable (schemaNameOf e)"
  by (auto simp: validEntityId_def quotable_def schemaNameOf_def replaceHyphens_map
      dest: alphanumeric_not_quote)

lemma schemaName_toTenantData: "schemaName (toTenantData r) = schema_name r"
  by (simp add: toTenantData_def)

subsection \<open>What each operation computes\<close>

lemma getTenantByEntityId_run:
  "getTenantByEntityId e w =
     (Inr (firstRow (filter (\<lambda>r. entity_id r = e) (tenants w))),
      w\<lparr>issued := issued w @ [SelectByEntityId e]\<rparr>)"
  by (simp add: getTenantByEntityId_def await_def resolve_def raw_def)

lemma getTenantBySchemaName_run:
  "getTenantBySchemaName s w =
     (Inr (firstRow (filter (\<lambda>r. schema_name r = s) (tenants w))),
      w\<lparr>issued := issued w @ [SelectBySchemaName s]\<rparr>)"
  by (simp add: getTenantBySchemaName_def await_def resolve_def raw_def)

lemma listTenants_run:
  "listTenants w =
     (Inr (map toTenantData (sort_key (\<lambda>r. - created_at r) (tenants w))),
      w\<lparr>issued := issued w @ [SelectAllOrderByCreatedAtDesc]\<rparr>)"
  by (simp add: listTenants_def await_def resolve_def raw_def)

text \<open>\<^verbatim>\<open>createTenant\<close> has four runs: the tenant exists; it does not and
  \<^verbatim>\<open>CREATE SCHEMA\<close> is a syntax error; the namespace is made and the insert is refused,
  which leaves the namespace behind; the namespace is made and the row is stored. The
  \<^verbatim>\<open>ON CONFLICT\<close> branch of the insert is never taken.\<close>

lemma createTenant_existing:
  assumes "filter (\<lambda>r. entity_id r = e) (tenants w) = r # rest"
  shows "createTenant \<lparr>CreateTenantInput.entityId = e, entityName = n\<rparr> w =
           (Inr (Some (toTenantData r)), w\<lparr>issued := issued w @ [SelectByEntityId e]\<rparr>)"
  using assms
  by (simp add: createTenant_def Let_def await_def resolve_def getTenantByEntityId_run)

lemma createTenant_unparsed:
  assumes "e \<notin> entity_id ` set (tenants w)" and "\<not> quotable (schemaNameOf e)"
  shows "createTenant \<lparr>CreateTenantInput.entityId = e, entityName = n\<rparr> w =
           (Inl SyntaxError,
            w\<lparr>issued := issued w @ [SelectByEntityId e, CreateSchemaIfNotExists (schemaNameOf e)]\<rparr>)"
  using assms
  by (simp add: createTenant_def Let_def await_def resolve_def getTenantByEntityId_run raw_def
      filter_key_absent)

lemma createTenant_refused:
  assumes "e \<notin> entity_id ` set (tenants w)" and "quotable (schemaNameOf e)"
    and "refused (tenants w) (new_row (clock w) (tenantIdOf e) e n (schemaNameOf e)) = Some err"
  shows "createTenant \<lparr>CreateTenantInput.entityId = e, entityName = n\<rparr> w =
           (Inl err,
            w\<lparr>schemas := insert (namespaceOf (schemaNameOf e)) (schemas w),
              issued := issued w @ [SelectByEntityId e, CreateSchemaIfNotExists (schemaNameOf e),
                InsertTenantOnConflictEntityId (tenantIdOf e) e n (schemaNameOf e)]\<rparr>)"
  using assms
  by (auto simp: createTenant_def Let_def await_def resolve_def getTenantByEntityId_run raw_def
      filter_key_absent refused_def split: if_splits)

lemma createTenant_new:
  assumes "e \<notin> entity_id ` set (tenants w)" and "quotable (schemaNameOf e)"
    and "refused (tenants w) (new_row (clock w) (tenantIdOf e) e n (schemaNameOf e)) = None"
  shows "createTenant \<lparr>CreateTenantInput.entityId = e, entityName = n\<rparr> w =
           (Inr (Some (toTenantData (new_row (clock w) (tenantIdOf e) e n (schemaNameOf e)))),
            w\<lparr>tenants := tenants w @ [new_row (clock w) (tenantIdOf e) e n (schemaNameOf e)],
              schemas := insert (namespaceOf (schemaNameOf e)) (schemas w),
              issued := issued w @ [SelectByEntityId e, CreateSchemaIfNotExists (schemaNameOf e),
                InsertTenantOnConflictEntityId (tenantIdOf e) e n (schemaNameOf e),
                SelectByEntityId e]\<rparr>)"
proof -
  from assms(3) have "\<not> tooLong (new_row (clock w) (tenantIdOf e) e n (schemaNameOf e))"
    by (auto simp: refused_def split: if_splits)
  with assms show ?thesis
    by (simp add: createTenant_def Let_def await_def resolve_def getTenantByEntityId_run raw_def
        filter_key_absent new_row_def)
qed

text \<open>The four runs are all there are.\<close>

lemma createTenant_runs:
  obtains (found) r rest where "filter (\<lambda>r. entity_id r = e) (tenants w) = r # rest"
  | (unparsed) "e \<notin> entity_id ` set (tenants w)" "\<not> quotable (schemaNameOf e)"
  | (turned_down) err where "e \<notin> entity_id ` set (tenants w)" "quotable (schemaNameOf e)"
      "refused (tenants w) (new_row (clock w) (tenantIdOf e) e n (schemaNameOf e)) = Some err"
  | (stored) "e \<notin> entity_id ` set (tenants w)" "quotable (schemaNameOf e)"
      "refused (tenants w) (new_row (clock w) (tenantIdOf e) e n (schemaNameOf e)) = None"
proof (cases "filter (\<lambda>r. entity_id r = e) (tenants w)")
  case Nil
  then have "e \<notin> entity_id ` set (tenants w)" by (auto simp: filter_empty_conv)
  with that(2,3,4) show ?thesis
    by (cases "refused (tenants w) (new_row (clock w) (tenantIdOf e) e n (schemaNameOf e))") auto
next
  case (Cons r rest)
  with that(1) show ?thesis .
qed

lemma updateTenantStatus_run:
  assumes "length st \<le> 50"
  shows "updateTenantStatus e st w =
     (Inr (firstRow (filter (\<lambda>r. entity_id r = e)
             (map (\<lambda>r. if entity_id r = e then r\<lparr>status_col := st, updated_at := clock w\<rparr> else r)
                (tenants w)))),
      w\<lparr>tenants := map (\<lambda>r. if entity_id r = e then r\<lparr>status_col := st, updated_at := clock w\<rparr> else r)
                      (tenants w),
        issued := issued w @ [UpdateTenants [SetStatus st, SetUpdatedAtNow] e, SelectByEntityId e]\<rparr>)"
  using assms
  by (simp add: updateTenantStatus_def await_def raw_def getTenantByEntityId_run cong: if_cong)

lemma deleteTenant_absent:
  assumes "e \<notin> entity_id ` set (tenants w)"
  shows "deleteTenant e w = (Inr False, w\<lparr>issued := issued w @ [SelectByEntityId e]\<rparr>)"
  using assms
  by (simp add: deleteTenant_def await_def resolve_def getTenantByEntityId_run filter_key_absent)


lemma tenantMiddleware_no_tenant:
  "tenantMiddleware \<lparr>header_x_tenant_id = None, cookie_tenant_id = None\<rparr> w = (unbound, w)"
  by (simp add: tenantMiddleware_def)

lemma no_active_after_inactive:
  "filter (\<lambda>r. entity_id r = e \<and> status_col r = ''active'')
     (map (\<lambda>r. if entity_id r = e then r\<lparr>status_col := ''inactive'', updated_at := now\<rparr> else r) rows) = []"
  by (induction rows) auto

text \<open>No assignment touches \<^verbatim>\<open>id\<close>, \<^verbatim>\<open>entity_id\<close>, \<^verbatim>\<open>schema_name\<close> or
  \<^verbatim>\<open>created_at\<close>.\<close>

lemma assign_frame:
  "id_col (assign now a r) = id_col r \<and> entity_id (assign now a r) = entity_id r \<and>
   schema_name (assign now a r) = schema_name r \<and> created_at (assign now a r) = created_at r"
  by (cases a) simp_all

lemma assign_all_frame:
  "id_col (assign_all now as r) = id_col r \<and> entity_id (assign_all now as r) = entity_id r \<and>
   schema_name (assign_all now as r) = schema_name r \<and> created_at (assign_all now as r) = created_at r"
  by (induction as arbitrary: r) (simp_all add: assign_frame)

text \<open>The \<^verbatim>\<open>SET\<close> list that \<^verbatim>\<open>PATCH\<close> builds from a body, and whether its values fit
  their columns.\<close>

lemma patch_entity_name:
  "entity_name (if entity_id r = e
                then assign_all now ((pushIf x SetEntityName @ pushIf y SetStatus) @ [SetUpdatedAtNow]) r
                else r) =
     (case x of None \<Rightarrow> entity_name r
      | Some n \<Rightarrow> if entity_id r = e \<and> n \<noteq> [] then n else entity_name r)"
  by (cases x; cases y) simp_all

lemma patch_status:
  "status_col (if entity_id r = e
               then assign_all now ((pushIf x SetEntityName @ pushIf y SetStatus) @ [SetUpdatedAtNow]) r
               else r) =
     (case y of None \<Rightarrow> status_col r
      | Some s \<Rightarrow> if entity_id r = e \<and> s \<noteq> [] then s else status_col r)"
  by (cases x; cases y) simp_all

lemma patch_fits:
  "list_all fits ((pushIf x SetEntityName @ pushIf y SetStatus) @ [SetUpdatedAtNow]) \<longleftrightarrow>
     (\<forall>n. x = Some n \<longrightarrow> length n \<le> 255) \<and> (\<forall>s. y = Some s \<longrightarrow> length s \<le> 50)"
  by (cases x; cases y) auto

text \<open>\<^verbatim>\<open>PATCH\<close> of a tenant that exists has three runs: nothing to update; an update that
  the engine accepts; an update with a value too long for its column, which is caught
  and answered with 500.\<close>

lemma PATCH_nothing:
  assumes "filter (\<lambda>r. entity_id r = e) (tenants w) = r # rest"
    and "pushIf (PatchBody.entityName b) SetEntityName @ pushIf (PatchBody.status b) SetStatus = []"
  shows "PATCH e b w =
    (\<lparr>statusCode = 200, json = TenantBody (toTenantData r)\<rparr>,
     w\<lparr>issued := issued w @ [SelectByEntityId e, SelectByEntityId e]\<rparr>)"
  using assms
  by (simp add: PATCH_def patchTenant_def Let_def await_def resolve_def raw_def)

lemma PATCH_updated:
  assumes "filter (\<lambda>r. entity_id r = e) (tenants w) = r # rest"
    and "updates = pushIf (PatchBody.entityName b) SetEntityName @ pushIf (PatchBody.status b) SetStatus"
    and "updates \<noteq> []" and "list_all fits (updates @ [SetUpdatedAtNow])"
  shows "PATCH e b w =
    (\<lparr>statusCode = 200, json = TenantBody (toTenantData
         (assign_all (clock w) (updates @ [SetUpdatedAtNow]) r))\<rparr>,
     w\<lparr>tenants := map (\<lambda>x. if entity_id x = e
                             then assign_all (clock w) (updates @ [SetUpdatedAtNow]) x
                             else x) (tenants w),
       issued := issued w @ [SelectByEntityId e,
                             UpdateTenants (updates @ [SetUpdatedAtNow]) e,
                             SelectByEntityId e]\<rparr>)"
proof -
  let ?g = "assign_all (clock w) (updates @ [SetUpdatedAtNow])"
  have "filter (\<lambda>x. entity_id x = e) (map (\<lambda>x. if entity_id x = e then ?g x else x) (tenants w))
          = ?g r # map ?g rest"
    using assms(1) by (simp add: filter_map_same_key assign_all_frame del: append_assoc)
  moreover have "\<not> (pushIf (PatchBody.entityName b) SetEntityName = [] \<and>
                    pushIf (PatchBody.status b) SetStatus = [])"
    using assms(2,3) by simp
  ultimately show ?thesis
    using assms(1,4) unfolding assms(2)
    by (simp add: PATCH_def patchTenant_def Let_def await_def resolve_def raw_def
        del: append_assoc cong: if_cong)
qed

lemma PATCH_too_long:
  assumes "filter (\<lambda>r. entity_id r = e) (tenants w) = r # rest"
    and "updates = pushIf (PatchBody.entityName b) SetEntityName @ pushIf (PatchBody.status b) SetStatus"
    and "updates \<noteq> []" and "\<not> list_all fits (updates @ [SetUpdatedAtNow])"
  shows "PATCH e b w =
    (\<lparr>statusCode = 500, json = ErrorOf StringDataRightTruncation\<rparr>,
     w\<lparr>issued := issued w @ [SelectByEntityId e, UpdateTenants (updates @ [SetUpdatedAtNow]) e]\<rparr>)"
proof -
  have "\<not> (pushIf (PatchBody.entityName b) SetEntityName = [] \<and>
           pushIf (PatchBody.status b) SetStatus = [])"
    using assms(2,3) by simp
  then show ?thesis
    using assms(1,4) unfolding assms(2)
    by (auto simp: PATCH_def patchTenant_def Let_def await_def resolve_def raw_def
        simp del: append_assoc cong: if_cong)
qed

subsection \<open>The table stays consistent\<close>

lemma consistent_rows:
  "tenants w' = tenants w \<Longrightarrow> consistent w \<Longrightarrow> consistent w'"
  unfolding consistent_def constraints_def derived_def named_def by metis

lemma consistent_map:
  assumes "consistent w"
    and "\<And>x. id_col (g x) = id_col x \<and> entity_id (g x) = entity_id x \<and> schema_name (g x) = schema_name x"
    and "tenants w' = map g (tenants w)"
  shows "consistent w'"
  using assms by (auto simp: consistent_def constraints_def derived_def named_def o_def)

lemma consistent_filter:
  assumes "consistent w" and "tenants w' = filter P (tenants w)"
  shows "consistent w'"
  using assms
  by (auto simp: consistent_def constraints_def derived_def named_def distinct_map_filter)

lemma consistent_append:
  assumes "consistent w" and "refused (tenants w) new = None"
    and "id_col new = tenantIdOf (entity_id new)" and "schema_name new = schemaNameOf (entity_id new)"
    and "quotable (schema_name new)"
    and "tenants w' = tenants w @ [new]"
  shows "consistent w'"
  using assms
  by (auto simp: consistent_def constraints_def derived_def named_def refused_def violated_def
      split: if_splits)

lemma constraints_append:
  assumes "constraints w" and "refused (tenants w) new = None"
  shows "constraints (w\<lparr>tenants := tenants w @ [new]\<rparr>)"
  using assms by (auto simp: constraints_def refused_def violated_def split: if_splits)

lemma exec_consistent:
  assumes "consistent w" and "deriving q"
  shows "consistent (snd (exec q w))"
proof (cases q)
  case (InsertTenant i e n s)
  show ?thesis
  proof (cases "refused (tenants w) (new_row (clock w) i e n s)")
    case None
    with assms InsertTenant show ?thesis
      by (auto intro!: consistent_append [OF assms(1) None] simp: new_row_def)
  next
    case (Some c)
    with assms InsertTenant show ?thesis by simp
  qed
next
  case (InsertTenantOnConflictEntityId i e n s)
  show ?thesis
  proof (cases "e \<in> entity_id ` set (tenants w)")
    case True
    let ?g = "\<lambda>r. if entity_id r = e then r\<lparr>entity_name := n, updated_at := clock w\<rparr> else r"
    have "consistent (w\<lparr>tenants := map ?g (tenants w)\<rparr>)"
      by (rule consistent_map [OF assms(1), of ?g]) simp_all
    with True InsertTenantOnConflictEntityId assms(1) show ?thesis by simp
  next
    case False
    show ?thesis
    proof (cases "refused (tenants w) (new_row (clock w) i e n s)")
      case None
      with assms InsertTenantOnConflictEntityId False show ?thesis
        by (auto intro!: consistent_append [OF assms(1) None] simp: new_row_def)
    next
      case (Some c)
      with assms InsertTenantOnConflictEntityId False show ?thesis by simp
    qed
  qed
next
  case (UpdateTenants sets e)
  let ?g = "\<lambda>r. if entity_id r = e then assign_all (clock w) sets r else r"
  have "consistent (w\<lparr>tenants := map ?g (tenants w)\<rparr>)"
    by (rule consistent_map [OF assms(1), of ?g]) (simp_all add: assign_all_frame)
  with UpdateTenants assms(1) show ?thesis by simp
next
  case (DeleteByEntityId e)
  have "consistent (w\<lparr>tenants := filter (\<lambda>r. entity_id r \<noteq> e) (tenants w)\<rparr>)"
    by (rule consistent_filter [OF assms(1)]) simp
  with DeleteByEntityId show ?thesis by simp
qed (use assms in \<open>auto intro: consistent_rows\<close>)

lemma raw_consistent:
  assumes "consistent w" and "deriving q"
  shows "consistent (snd (raw q w))"
proof -
  have "consistent (w\<lparr>issued := issued w @ [q]\<rparr>)"
    using assms(1) by (rule consistent_rows [rotated]) simp
  from exec_consistent [OF this assms(2)] show ?thesis by (simp add: raw_def)
qed

lemma await_consistent:
  assumes "consistent w"
    and "\<And>w. consistent w \<Longrightarrow> consistent (snd (m w))"
    and "\<And>a w. consistent w \<Longrightarrow> consistent (snd (f a w))"
  shows "consistent (snd (await m f w))"
proof (cases "m w")
  case (Pair out w1)
  with assms(2) [OF assms(1)] have "consistent w1" by simp
  with Pair assms(3) show ?thesis by (cases out) (simp_all add: await_def)
qed

lemma resolve_consistent: "consistent w \<Longrightarrow> consistent (snd (resolve a w))"
  by (simp add: resolve_def)

lemma reject_consistent: "consistent w \<Longrightarrow> consistent (snd (reject a w))"
  by (simp add: reject_def)

lemma getTenantByEntityId_consistent:
  "consistent w \<Longrightarrow> consistent (snd (getTenantByEntityId e w))"
  by (auto simp: getTenantByEntityId_run intro: consistent_rows)

text \<open>The insert of \<^verbatim>\<open>createTenant\<close> is reached only when \<^verbatim>\<open>CREATE SCHEMA\<close> has accepted
  the derived name.\<close>

lemma createTenant_consistent:
  assumes "consistent w"
  shows "consistent (snd (createTenant input w))"
proof -
  obtain e n where input: "input = \<lparr>CreateTenantInput.entityId = e, entityName = n\<rparr>"
    by (cases input) simp
  let ?new = "new_row (clock w) (tenantIdOf e) e n (schemaNameOf e)"
  show ?thesis
  proof (cases rule: createTenant_runs [where e = e and w = w and n = n])
    case (found r rest)
    from createTenant_existing [OF this, where n = n] assms show ?thesis
      unfolding input by (auto intro: consistent_rows)
  next
    case unparsed
    from createTenant_unparsed [OF this, where n = n] assms show ?thesis
      unfolding input by (auto intro: consistent_rows)
  next
    case (turned_down err)
    from createTenant_refused [OF this] assms show ?thesis
      unfolding input by (auto intro: consistent_rows)
  next
    case stored
    from createTenant_new [OF stored]
    have t: "tenants (snd (createTenant input w)) = tenants w @ [?new]"
      unfolding input by simp
    show ?thesis
      by (rule consistent_append [OF assms stored(3) _ _ _ t])
         (use stored(2) in \<open>simp_all add: new_row_def\<close>)
  qed
qed

lemma updateTenantStatus_consistent:
  assumes "consistent w"
  shows "consistent (snd (updateTenantStatus e st w))"
  unfolding updateTenantStatus_def
  by (intro await_consistent [OF assms] getTenantByEntityId_consistent raw_consistent) simp_all

lemma deleteTenant_consistent:
  assumes "consistent w"
  shows "consistent (snd (deleteTenant e w))"
  unfolding deleteTenant_def
  by (intro await_consistent [OF assms] getTenantByEntityId_consistent)
     (auto split: option.splits intro!: await_consistent raw_consistent resolve_consistent)

lemma PATCH_consistent:
  assumes "consistent w"
  shows "consistent (snd (PATCH e b w))"
proof -
  have "consistent (snd (patchTenant e b w))"
    unfolding patchTenant_def Let_def
    by (intro await_consistent [OF assms] raw_consistent)
       (auto split: list.splits intro!: await_consistent raw_consistent resolve_consistent
          reject_consistent)
  then show ?thesis
    by (cases "patchTenant e b w") (auto simp: PATCH_def split: sum.splits)
qed

lemma insert_after_create_consistent:
  assumes "consistent w" and "i = tenantIdOf e" and "s = schemaNameOf e"
  shows "consistent (snd (await (raw (CreateSchemaIfNotExists s))
                            (\<lambda>_. await (raw (InsertTenant i e n s)) (\<lambda>_. resolve res)) w))"
proof (cases "quotable s")
  case True
  have "consistent (w\<lparr>issued := issued w @ [CreateSchemaIfNotExists s],
                       schemas := insert (namespaceOf s) (schemas w)\<rparr>)"
    using assms(1) by (rule consistent_rows [rotated]) simp
  then have "consistent (snd (await (raw (InsertTenant i e n s)) (\<lambda>_. resolve res)
               (w\<lparr>issued := issued w @ [CreateSchemaIfNotExists s],
                  schemas := insert (namespaceOf s) (schemas w)\<rparr>)))"
    using True assms(2,3)
    by (intro await_consistent raw_consistent resolve_consistent) simp_all
  with True show ?thesis by (simp add: await_def [of "raw (CreateSchemaIfNotExists s)"] raw_def)
next
  case False
  with assms(1) show ?thesis
    by (auto simp: await_def raw_def intro: consistent_rows)
qed

lemma POST_consistent:
  assumes "consistent w"
  shows "consistent (snd (POST env adminKey bodyEntityId bodyEntityName w))"
proof -
  have "consistent (snd (postTenant bodyEntityId bodyEntityName w))"
    unfolding postTenant_def Let_def using assms
    by (auto simp: tenantIdOf_def schemaNameOf_def split: option.splits list.splits
        intro!: await_consistent raw_consistent resolve_consistent insert_after_create_consistent)
  with assms show ?thesis
    by (cases "postTenant bodyEntityId bodyEntityName w") (auto simp: POST_def split: sum.splits)
qed

lemma tenantMiddleware_consistent:
  assumes "consistent w"
  shows "consistent (snd (tenantMiddleware req w))"
  using assms
  by (auto simp: tenantMiddleware_def raw_def split: option.splits list.splits intro: consistent_rows)

text \<open>Every reachable table satisfies the constraints of the table declaration, every
  row in it carries the identifiers derived from its \<^verbatim>\<open>entity_id\<close>, and no stored
  \<^verbatim>\<open>schema_name\<close> has a double quote.\<close>

lemma reachable_consistent: "reachable w \<Longrightarrow> consistent w"
proof (induction rule: reachable.induct)
  case (initial w)
  then show ?case by (simp add: consistent_def constraints_def derived_def named_def)
next
  case (elapse w c)
  then show ?case by (auto intro: consistent_rows)
next
  case (getTenantBySchemaName w s)
  then show ?case by (auto simp: getTenantBySchemaName_run intro: consistent_rows)
next
  case (listTenants w)
  then show ?case by (auto simp: listTenants_run intro: consistent_rows)
next
  case (switchToTenantSchema w s)
  then show ?case
    by (auto simp: switchToTenantSchema_def await_def resolve_def raw_def intro: consistent_rows)
next
  case (resetToPublicSchema w)
  then show ?case
    by (auto simp: resetToPublicSchema_def await_def resolve_def raw_def intro: consistent_rows)
next
  case (onFinish w)
  then show ?case by (auto simp: onFinish_def raw_def intro: consistent_rows)
qed (simp_all add: createTenant_consistent getTenantByEntityId_consistent
      updateTenantStatus_consistent deleteTenant_consistent tenantMiddleware_consistent
      PATCH_consistent POST_consistent)


lemma reachable_derived: "reachable w \<Longrightarrow> derived w"
  using reachable_consistent by (simp add: consistent_def)


lemma getTenantBySchemaName_stored:
  assumes "constraints w" and "r \<in> set (tenants w)"
  shows "fst (getTenantBySchemaName (schema_name r) w) = Inr (Some (toTenantData r))"
proof -
  from assms(1) have "distinct (map schema_name (tenants w))" by (simp add: constraints_def)
  from filter_key_unique [OF this assms(2)] show ?thesis
    by (simp add: getTenantBySchemaName_run)
qed

subsection \<open>Creation is idempotent\<close>



subsection \<open>Status\<close>

text \<open>
  C7. Let the status be \<^verbatim>\<open>active\<close> or \<^verbatim>\<open>inactive\<close>. When no tenant has the given
  \<^verbatim>\<open>entityId\<close>, \<^verbatim>\<open>updateTenantStatus\<close> returns absent and the table, the namespaces and
  the \<^verbatim>\<open>search_path\<close> are as before. For a tenant that exists, it returns that tenant
  with the status set to the given value and \<^verbatim>\<open>updatedAt\<close> set to the current time, all
  other fields as before; that is the row now stored, and no other row has changed.
\<close>

theorem updateStatus_cases:
  assumes "st = ''active'' \<or> st = ''inactive''"
  shows "(e \<notin> entity_id ` set (tenants w) \<longrightarrow>
            (\<exists>w1. updateTenantStatus e st w = (Inr None, w1) \<and>
               tenants w1 = tenants w \<and> schemas w1 = schemas w \<and> search_path w1 = search_path w))
       \<and> (\<forall>r. constraints w \<and> r \<in> set (tenants w) \<and> entity_id r = e \<longrightarrow>
            (\<exists>w1. updateTenantStatus e st w =
                     (Inr (Some (toTenantData (r\<lparr>status_col := st, updated_at := clock w\<rparr>))), w1) \<and>
               tenants w1 = map (\<lambda>x. if x = r then r\<lparr>status_col := st, updated_at := clock w\<rparr> else x)
                              (tenants w) \<and>
               fst (getTenantByEntityId e w1) =
                 Inr (Some (toTenantData (r\<lparr>status_col := st, updated_at := clock w\<rparr>))) \<and>
               schemas w1 = schemas w \<and> search_path w1 = search_path w))"
proof -
  have len: "length st \<le> 50" using assms by auto
  let ?f = "\<lambda>r. r\<lparr>status_col := st, updated_at := clock w\<rparr>"
  show ?thesis
  proof (intro conjI impI allI)
    assume "e \<notin> entity_id ` set (tenants w)"
    then show "\<exists>w1. updateTenantStatus e st w = (Inr None, w1) \<and>
                 tenants w1 = tenants w \<and> schemas w1 = schemas w \<and> search_path w1 = search_path w"
      by (simp add: updateTenantStatus_run [OF len] map_other_rows filter_key_absent)
  next
    fix r
    assume a: "constraints w \<and> r \<in> set (tenants w) \<and> entity_id r = e"
    then have d: "distinct (map entity_id (tenants w))" by (simp add: constraints_def)
    from a filter_key_unique [OF d, of r]
    have f: "filter (\<lambda>x. entity_id x = e) (tenants w) = [r]" by auto
    have m: "map (\<lambda>x. if entity_id x = e then ?f x else x) (tenants w) =
             map (\<lambda>x. if x = r then ?f r else x) (tenants w)"
    proof (rule map_cong [OF refl])
      fix x assume "x \<in> set (tenants w)"
      with d a have "entity_id x = e \<longleftrightarrow> x = r" by (auto simp: distinct_map inj_on_def)
      then show "(if entity_id x = e then ?f x else x) = (if x = r then ?f r else x)" by auto
    qed
    have "filter (\<lambda>x. entity_id x = e) (map (\<lambda>x. if entity_id x = e then ?f x else x) (tenants w))
            = [?f r]"
      by (simp add: filter_map_same_key f)
    with m show "\<exists>w1. updateTenantStatus e st w = (Inr (Some (toTenantData (?f r))), w1) \<and>
                 tenants w1 = map (\<lambda>x. if x = r then ?f r else x) (tenants w) \<and>
                 fst (getTenantByEntityId e w1) = Inr (Some (toTenantData (?f r))) \<and>
                 schemas w1 = schemas w \<and> search_path w1 = search_path w"
      by (simp add: updateTenantStatus_run [OF len] getTenantByEntityId_run)
  qed
qed

theorem updateStatus_cases_witness:
  "''ghost'' \<notin> entity_id ` set (tenants pairRegistry) \<and>
   (\<exists>w1. updateTenantStatus ''ghost'' ''inactive'' pairRegistry = (Inr None, w1) \<and>
      tenants w1 = [acme, globex]) \<and>
   constraints pairRegistry \<and> globex \<in> set (tenants pairRegistry) \<and> entity_id globex = ''globex'' \<and>
   (\<exists>w1. updateTenantStatus ''globex'' ''inactive'' pairRegistry =
            (Inr (Some (toTenantData (globex\<lparr>status_col := ''inactive'', updated_at := 9\<rparr>))), w1) \<and>
      tenants w1 = [acme, globex\<lparr>status_col := ''inactive'', updated_at := 9\<rparr>])"
proof -
  have st: "''inactive'' = ''active'' \<or> ''inactive'' = ''inactive''" by simp
  have a: "''ghost'' \<notin> entity_id ` set (tenants pairRegistry)"
    by (simp add: pairRegistry_def acme_def globex_def)
  have b: "constraints pairRegistry \<and> globex \<in> set (tenants pairRegistry) \<and> entity_id globex = ''globex''"
    by (simp add: constraints_def pairRegistry_def acme_def globex_def)
  have c: "tenants pairRegistry = [acme, globex]" "clock pairRegistry = 9" "acme \<noteq> globex"
    by (simp_all add: pairRegistry_def acme_def globex_def)
  from updateStatus_cases [OF st, of "''ghost''" pairRegistry] a c
  have 1: "\<exists>w1. updateTenantStatus ''ghost'' ''inactive'' pairRegistry = (Inr None, w1) \<and>
      tenants w1 = [acme, globex]"
    by auto
  from updateStatus_cases [OF st, of "''globex''" pairRegistry] b c
  have 2: "\<exists>w1. updateTenantStatus ''globex'' ''inactive'' pairRegistry =
            (Inr (Some (toTenantData (globex\<lparr>status_col := ''inactive'', updated_at := 9\<rparr>))), w1) \<and>
      tenants w1 = [acme, globex\<lparr>status_col := ''inactive'', updated_at := 9\<rparr>]"
    by auto
  from a b 1 2 show ?thesis by blast
qed

subsection \<open>Deleting what is not there\<close>

text \<open>
  C6. When no tenant has the given \<^verbatim>\<open>entityId\<close>, \<^verbatim>\<open>deleteTenant\<close> returns false. The
  only statement it issues is the lookup, which changes nothing: the table, the
  namespaces and the \<^verbatim>\<open>search_path\<close> are as before, and \<^verbatim>\<open>listTenants\<close> returns the
  same list before and after.
\<close>

theorem delete_absent:
  assumes "e \<notin> entity_id ` set (tenants w)"
  shows "\<exists>w1. deleteTenant e w = (Inr False, w1) \<and>
           tenants w1 = tenants w \<and> schemas w1 = schemas w \<and> search_path w1 = search_path w \<and>
           issued w1 = issued w @ [SelectByEntityId e] \<and> \<not> mutating (SelectByEntityId e) \<and>
           fst (listTenants w1) = fst (listTenants w)"
  using deleteTenant_absent [OF assms] by (simp add: listTenants_run)

theorem delete_absent_witness:
  "''ghost'' \<notin> entity_id ` set (tenants pairRegistry) \<and>
   (\<exists>w1. deleteTenant ''ghost'' pairRegistry = (Inr False, w1) \<and>
      tenants w1 = [acme, globex] \<and>
      schemas w1 = {''tenant_entity_acme_1'', ''tenant_entity_globex''} \<and>
      fst (listTenants w1) = fst (listTenants pairRegistry))"
proof -
  have h: "''ghost'' \<notin> entity_id ` set (tenants pairRegistry)"
    by (simp add: pairRegistry_def acme_def globex_def)
  have c: "tenants pairRegistry = [acme, globex]"
    "schemas pairRegistry = {''tenant_entity_acme_1'', ''tenant_entity_globex''}"
    by (simp_all add: pairRegistry_def)
  from delete_absent [OF h] h c show ?thesis by auto
qed

subsection \<open>Lookups\<close>

text \<open>
  C8. In a table that satisfies its constraints, looking a tenant up by its
  \<^verbatim>\<open>schemaName\<close> returns that very tenant, equal in every field: both for the tenant
  that \<^verbatim>\<open>createTenant\<close> has just returned and for any tenant that
  \<^verbatim>\<open>getTenantByEntityId\<close> returns.
\<close>

theorem schemaName_roundtrip:
  assumes "constraints w"
  shows "(\<forall>t w1. createTenant \<lparr>CreateTenantInput.entityId = e, entityName = n\<rparr> w = (Inr (Some t), w1) \<longrightarrow>
            fst (getTenantBySchemaName (schemaName t) w1) = Inr (Some t))
       \<and> (\<forall>t. fst (getTenantByEntityId e w) = Inr (Some t) \<longrightarrow>
            fst (getTenantBySchemaName (schemaName t) w) = Inr (Some t))"
proof -
  let ?input = "\<lparr>CreateTenantInput.entityId = e, entityName = n\<rparr>"
  let ?new = "new_row (clock w) (tenantIdOf e) e n (schemaNameOf e)"
  have second: "\<forall>t. fst (getTenantByEntityId e w) = Inr (Some t) \<longrightarrow>
            fst (getTenantBySchemaName (schemaName t) w) = Inr (Some t)"
  proof (intro allI impI)
    fix t assume "fst (getTenantByEntityId e w) = Inr (Some t)"
    then obtain r rest where f: "filter (\<lambda>r. entity_id r = e) (tenants w) = r # rest"
      and t: "t = toTenantData r"
      by (cases "filter (\<lambda>r. entity_id r = e) (tenants w)") (auto simp: getTenantByEntityId_run)
    from filter_Cons_mem [OF f] have "r \<in> set (tenants w)" by simp
    from getTenantBySchemaName_stored [OF assms this] t
    show "fst (getTenantBySchemaName (schemaName t) w) = Inr (Some t)"
      by (simp add: schemaName_toTenantData)
  qed
  have first: "\<forall>t w1. createTenant ?input w = (Inr (Some t), w1) \<longrightarrow>
            fst (getTenantBySchemaName (schemaName t) w1) = Inr (Some t)"
  proof (cases rule: createTenant_runs [where e = e and w = w and n = n])
    case (found r rest)
    from filter_Cons_mem [OF found] have "r \<in> set (tenants w)" by simp
    from getTenantBySchemaName_stored [OF assms this]
    have "fst (getTenantBySchemaName (schemaName (toTenantData r)) w) = Inr (Some (toTenantData r))"
      by (simp add: schemaName_toTenantData)
    with createTenant_existing [OF found, where n = n] show ?thesis
      by (simp add: getTenantBySchemaName_run)
  next
    case unparsed
    from createTenant_unparsed [OF unparsed, where n = n] show ?thesis by simp
  next
    case (turned_down err)
    from createTenant_refused [OF turned_down] show ?thesis by simp
  next
    case stored
    let ?w1 = "w\<lparr>tenants := tenants w @ [?new]\<rparr>"
    have "constraints ?w1" using assms stored(3) by (rule constraints_append)
    moreover have "?new \<in> set (tenants ?w1)" by simp
    ultimately have "fst (getTenantBySchemaName (schema_name ?new) ?w1) = Inr (Some (toTenantData ?new))"
      by (rule getTenantBySchemaName_stored)
    then have "fst (getTenantBySchemaName (schemaName (toTenantData ?new))
                 (snd (createTenant ?input w)))
       = Inr (Some (toTenantData ?new))"
      by (simp add: createTenant_new [OF stored] getTenantBySchemaName_run schemaName_toTenantData)
    with createTenant_new [OF stored] show ?thesis by simp
  qed
  from first second show ?thesis by (rule conjI)
qed

theorem schemaName_roundtrip_witness:
  "constraints acmeRegistry \<and>
   (\<exists>t w1. createTenant \<lparr>CreateTenantInput.entityId = ''globex'', entityName = ''Globex''\<rparr> acmeRegistry
             = (Inr (Some t), w1) \<and>
           schemaName t = ''tenant_entity_globex'' \<and>
           fst (getTenantBySchemaName ''tenant_entity_globex'' w1) = Inr (Some t)) \<and>
   fst (getTenantByEntityId ''acme-1'' acmeRegistry) = Inr (Some (toTenantData acme)) \<and>
   fst (getTenantBySchemaName ''tenant_entity_acme_1'' acmeRegistry) = Inr (Some (toTenantData acme))"
proof -
  have k: "constraints acmeRegistry" by (simp add: constraints_def acmeRegistry_def)
  have c: "\<exists>t w1. createTenant \<lparr>CreateTenantInput.entityId = ''globex'', entityName = ''Globex''\<rparr> acmeRegistry
             = (Inr (Some t), w1) \<and> schemaName t = ''tenant_entity_globex''"
    by (simp add: createTenant_def Let_def await_def resolve_def getTenantByEntityId_run raw_def
      acmeRegistry_def acme_def refused_def tooLong_def violated_def quotable_def new_row_def
      tenantIdOf_def schemaNameOf_def toTenantData_def)
  have g: "fst (getTenantByEntityId ''acme-1'' acmeRegistry) = Inr (Some (toTenantData acme))"
    by (simp add: getTenantByEntityId_run acmeRegistry_def acme_def)
  have s: "schemaName (toTenantData acme) = ''tenant_entity_acme_1''"
    by (simp add: toTenantData_def acme_def)
  from schemaName_roundtrip [OF k, of "''globex''" "''Globex''"] c
  have 1: "\<exists>t w1. createTenant \<lparr>CreateTenantInput.entityId = ''globex'', entityName = ''Globex''\<rparr> acmeRegistry
             = (Inr (Some t), w1) \<and>
           schemaName t = ''tenant_entity_globex'' \<and>
           fst (getTenantBySchemaName ''tenant_entity_globex'' w1) = Inr (Some t)"
    by metis
  from schemaName_roundtrip [OF k, of "''acme-1''" "''x''"] g s
  have 2: "fst (getTenantBySchemaName ''tenant_entity_acme_1'' acmeRegistry) = Inr (Some (toTenantData acme))"
    by metis
  from k 1 g 2 show ?thesis by blast
qed

text \<open>
  C9. \<^verbatim>\<open>listTenants\<close> returns every stored tenant, each exactly once, and the list is
  ordered by \<^verbatim>\<open>createdAt\<close> descending: no tenant comes before one created later. The
  table itself is not changed.
\<close>

theorem list_all_newest_first:
  "\<exists>ts w1. listTenants w = (Inr ts, w1) \<and>
     mset ts = mset (map toTenantData (tenants w)) \<and>
     sorted_wrt (\<lambda>a b. createdAt a \<ge> createdAt b) ts \<and>
     tenants w1 = tenants w"
proof -
  let ?rows = "sort_key (\<lambda>r. - created_at r) (tenants w)"
  have "sorted (map (\<lambda>r. - created_at r) ?rows)" by (rule sorted_sort_key)
  then have "sorted_wrt (\<lambda>a b. created_at a \<ge> created_at b) ?rows"
    by (simp add: sorted_map)
  then have "sorted_wrt (\<lambda>a b. createdAt a \<ge> createdAt b) (map toTenantData ?rows)"
    by (simp add: sorted_wrt_map toTenantData_def)
  moreover have "mset (map toTenantData ?rows) = mset (map toTenantData (tenants w))"
    by simp
  ultimately show ?thesis by (simp add: listTenants_run)
qed

theorem list_all_newest_first_witness:
  "fst (listTenants pairRegistry) = Inr [toTenantData globex, toTenantData acme] \<and>
   (\<exists>ts w1. listTenants pairRegistry = (Inr ts, w1) \<and>
      mset ts = mset (map toTenantData (tenants pairRegistry)) \<and>
      sorted_wrt (\<lambda>a b. createdAt a \<ge> createdAt b) ts \<and>
      tenants w1 = tenants pairRegistry)"
proof -
  have l: "fst (listTenants pairRegistry) = Inr [toTenantData globex, toTenantData acme]"
    by (simp add: listTenants_run pairRegistry_def acme_def globex_def)
  from l list_all_newest_first [of pairRegistry] show ?thesis by (rule conjI)
qed

subsection \<open>Namespaces and the example registries\<close>

text \<open>A name without question marks and backslashes goes to the engine as it is, and a name
  of at most 63 characters is kept whole.\<close>

lemma positionBindings_plain:
  "CHR ''?'' \<notin> set s \<Longrightarrow> CHR 0x5C \<notin> set s \<Longrightarrow> positionBindings 0 q s = s"
  by (induction s) auto

lemma namespaceOf_plain:
  "CHR ''?'' \<notin> set s \<Longrightarrow> CHR 0x5C \<notin> set s \<Longrightarrow> length s \<le> 63 \<Longrightarrow> namespaceOf s = s"
  by (simp add: namespaceOf_def positionBindings_plain)

text \<open>Two \<^verbatim>\<open>entityId\<close>s of 50 characters that differ in the last one derive different
  names of 64 characters, which the engine cuts to the same namespace.\<close>

lemma namespaceOf_shared:
  "schemaNameOf (replicate 49 (CHR ''a'') @ ''x'') \<noteq> schemaNameOf (replicate 49 (CHR ''a'') @ ''y'') \<and>
   namespaceOf (schemaNameOf (replicate 49 (CHR ''a'') @ ''x'')) =
   namespaceOf (schemaNameOf (replicate 49 (CHR ''a'') @ ''y''))"
proof -
  have "namespaceOf (''tenant_entity_'' @ replicate 49 (CHR ''a'') @ [c])
          = ''tenant_entity_'' @ replicate 49 (CHR ''a'')"
    if "c \<noteq> CHR ''?''" "c \<noteq> CHR 0x5C" for c
    using that by (simp add: namespaceOf_def positionBindings_plain)
  then show ?thesis
    by (simp add: schemaNameOf_def replaceHyphens_map)
qed

lemma acmeCreated_eq:
  "acmeCreated =
     \<lparr>tenants = [acme], schemas = {''tenant_entity_acme_1''}, search_path = [''public''],
      clock = 0,
      issued = [SelectByEntityId ''acme-1'', CreateSchemaIfNotExists ''tenant_entity_acme_1'',
                InsertTenantOnConflictEntityId ''tenant_acme-1'' ''acme-1'' ''Acme Co''
                  ''tenant_entity_acme_1'',
                SelectByEntityId ''acme-1'']\<rparr>"
  by (simp add: acmeCreated_def createTenant_def Let_def await_def resolve_def
      getTenantByEntityId_run raw_def emptyRegistry_def refused_def tooLong_def violated_def
      quotable_def new_row_def tenantIdOf_def schemaNameOf_def acme_def namespaceOf_plain)


lemma underscoreCreated_rows:
  "tenants underscoreCreated =
     [\<lparr>id_col = ''tenant_a_b'', entity_id = ''a_b'', entity_name = ''A'',
       schema_name = ''tenant_entity_a_b'', status_col = ''active'',
       created_at = 0, updated_at = 0\<rparr>]"
  by (simp add: underscoreCreated_def createTenant_def Let_def await_def resolve_def
      getTenantByEntityId_run raw_def emptyRegistry_def refused_def tooLong_def violated_def
      quotable_def new_row_def tenantIdOf_def schemaNameOf_def)

lemma reachable_examples:
  "reachable emptyRegistry" "reachable acmeCreated" "reachable pairCreated"
  "reachable underscoreCreated" "reachable acmeBound" "reachable acmeBoundInactive"
proof -
  show e: "reachable emptyRegistry" by (rule reachable.initial) (simp add: emptyRegistry_def)
  then show a: "reachable acmeCreated" unfolding acmeCreated_def by (rule reachable.createTenant)
  from a have "reachable (acmeCreated\<lparr>clock := 5\<rparr>)" by (rule reachable.elapse)
  then show "reachable pairCreated" unfolding pairCreated_def by (rule reachable.createTenant)
  from e show "reachable underscoreCreated"
    unfolding underscoreCreated_def by (rule reachable.createTenant)
  from a show b: "reachable acmeBound" unfolding acmeBound_def by (rule reachable.tenantMiddleware)
  then show "reachable acmeBoundInactive"
    unfolding acmeBoundInactive_def by (rule reachable.updateTenantStatus)
qed

text \<open>The sanitization alone does not keep two \<^verbatim>\<open>entityId\<close>s apart: \<^verbatim>\<open>a-b\<close> and
  \<^verbatim>\<open>a_b\<close> derive the same name.\<close>

lemma schemaNameOf_collision:
  "''a-b'' \<noteq> ''a_b'' \<and> schemaNameOf ''a-b'' = schemaNameOf ''a_b''"
  by (simp add: schemaNameOf_def)

subsection \<open>Creation\<close>

lemma not_refused:
  assumes "derived w" and "e \<notin> entity_id ` set (tenants w)"
    and "length e \<le> 241" and "length n \<le> 255"
    and "\<forall>r \<in> set (tenants w). entity_id r \<noteq> e \<longrightarrow> schema_name r \<noteq> schemaNameOf e"
  shows "refused (tenants w) (new_row (clock w) (tenantIdOf e) e n (schemaNameOf e)) = None"
proof -
  have "tenantIdOf e \<notin> id_col ` set (tenants w)"
  proof
    assume "tenantIdOf e \<in> id_col ` set (tenants w)"
    then obtain r where r: "r \<in> set (tenants w)" "id_col r = tenantIdOf e" by auto
    with assms(1) have "tenantIdOf (entity_id r) = tenantIdOf e" by (auto simp: derived_def)
    then have "entity_id r = e" by (simp add: tenantIdOf_def)
    with r assms(2) show False by auto
  qed
  moreover have "schemaNameOf e \<notin> schema_name ` set (tenants w)"
    using assms(2,5) by force
  moreover have "\<not> tooLong (new_row (clock w) (tenantIdOf e) e n (schemaNameOf e))"
    using assms(3,4)
    by (simp add: tooLong_def new_row_def tenantIdOf_def schemaNameOf_def length_replaceHyphens)
  ultimately show ?thesis using assms(2) by (simp add: refused_def violated_def new_row_def)
qed

text \<open>
  C1, as stated, fails. In the registry reached by registering \<^verbatim>\<open>a_b\<close>, the insert
  for \<^verbatim>\<open>a-b\<close> violates the \<^verbatim>\<open>UNIQUE\<close> constraint on \<^verbatim>\<open>schema_name\<close>:
  \<^verbatim>\<open>createTenant\<close> rejects and the lookup that follows returns absent. And for an
  \<^verbatim>\<open>entityId\<close> of 242 letters the derived \<^verbatim>\<open>schema_name\<close> has 256 characters, one more
  than the column takes, so \<^verbatim>\<open>createTenant\<close> rejects on the empty registry.
\<close>

theorem create_rejected:
  "validEntityId ''a-b'' \<and> reachable underscoreCreated \<and>
   fst (createTenant \<lparr>CreateTenantInput.entityId = ''a-b'', entityName = ''B''\<rparr> underscoreCreated)
     = Inl (UniqueViolation ''tenants_schema_name_key'') \<and>
   fst (getTenantByEntityId ''a-b''
          (snd (createTenant \<lparr>CreateTenantInput.entityId = ''a-b'', entityName = ''B''\<rparr>
                  underscoreCreated)))
     = Inr None \<and>
   validEntityId (replicate 242 (CHR ''a'')) \<and> reachable emptyRegistry \<and>
   fst (createTenant \<lparr>CreateTenantInput.entityId = replicate 242 (CHR ''a''), entityName = ''A''\<rparr>
          emptyRegistry)
     = Inl StringDataRightTruncation"
proof -
  have v: "validEntityId ''a-b''" "validEntityId (replicate 242 (CHR ''a''))"
    by (simp_all add: validEntityId_def alphanumeric_def)
  have absent: "''a-b'' \<notin> entity_id ` set (tenants underscoreCreated)"
    by (simp add: underscoreCreated_rows)
  have taken: "refused (tenants underscoreCreated)
          (new_row (clock underscoreCreated) (tenantIdOf ''a-b'') ''a-b'' ''B'' (schemaNameOf ''a-b''))
        = Some (UniqueViolation ''tenants_schema_name_key'')"
    by (simp add: underscoreCreated_rows refused_def tooLong_def violated_def new_row_def
        tenantIdOf_def schemaNameOf_def)
  note run = createTenant_refused [OF absent valid_quotable [OF v(1)] taken]
  have 1: "fst (createTenant \<lparr>CreateTenantInput.entityId = ''a-b'', entityName = ''B''\<rparr> underscoreCreated)
     = Inl (UniqueViolation ''tenants_schema_name_key'')"
    by (simp add: run)
  have 2: "fst (getTenantByEntityId ''a-b''
          (snd (createTenant \<lparr>CreateTenantInput.entityId = ''a-b'', entityName = ''B''\<rparr>
                  underscoreCreated)))
     = Inr None"
    by (simp add: run getTenantByEntityId_run underscoreCreated_rows)
  let ?e = "replicate 242 (CHR ''a'')"
  have "refused (tenants emptyRegistry)
          (new_row (clock emptyRegistry) (tenantIdOf ?e) ?e ''A'' (schemaNameOf ?e))
        = Some StringDataRightTruncation"
    by (simp add: refused_def tooLong_def new_row_def schemaNameOf_def length_replaceHyphens)
  from createTenant_refused [OF _ valid_quotable [OF v(2)] this]
  have 3: "fst (createTenant \<lparr>CreateTenantInput.entityId = ?e, entityName = ''A''\<rparr> emptyRegistry)
     = Inl StringDataRightTruncation"
    by (simp add: emptyRegistry_def)
  from v reachable_examples(1,4) 1 2 3 show ?thesis by simp
qed

text \<open>
  C1, amended. In every reachable registry, for every non-empty \<^verbatim>\<open>entityId\<close> \<open>e\<close> of
  alphanumerics and hyphens: whenever \<^verbatim>\<open>createTenant\<close> resolves, it resolves to a tenant,
  \<^verbatim>\<open>getTenantByEntityId\<close> then returns that tenant, its \<^verbatim>\<open>schemaName\<close> is
  \<^verbatim>\<open>tenant_entity_\<close> followed by \<open>e\<close> with every hyphen replaced by an underscore, and its
  \<^verbatim>\<open>id\<close> is \<^verbatim>\<open>tenant_\<close> followed by \<open>e\<close>. And \<^verbatim>\<open>createTenant\<close> does resolve when \<open>e\<close>
  has at most 241 characters, the \<^verbatim>\<open>entityName\<close> at most 255, and no tenant registered
  under another \<^verbatim>\<open>entityId\<close> has the \<^verbatim>\<open>schemaName\<close> derived from \<open>e\<close>.
\<close>

theorem create_then_getByEntityId:
  assumes "reachable w" and "validEntityId e"
  shows "(\<forall>out w1. createTenant \<lparr>CreateTenantInput.entityId = e, entityName = n\<rparr> w = (Inr out, w1) \<longrightarrow>
            (\<exists>t. out = Some t \<and> fst (getTenantByEntityId e w1) = Inr (Some t) \<and>
                 schemaName t = ''tenant_entity_'' @ map (\<lambda>c. if c = CHR ''-'' then CHR ''_'' else c) e \<and>
                 id' t = ''tenant_'' @ e))
       \<and> (length e \<le> 241 \<and> length n \<le> 255 \<and>
            (\<forall>r \<in> set (tenants w). entity_id r \<noteq> e \<longrightarrow> schema_name r \<noteq> schemaNameOf e) \<longrightarrow>
            (\<exists>t w1. createTenant \<lparr>CreateTenantInput.entityId = e, entityName = n\<rparr> w = (Inr (Some t), w1)))"
proof (cases rule: createTenant_runs [where e = e and w = w and n = n])
  case (found r rest)
  then have r: "r \<in> set (tenants w)" "entity_id r = e"
    using filter_Cons_mem [OF found] by auto
  with reachable_derived [OF assms(1)]
  have "id_col r = tenantIdOf e" "schema_name r = schemaNameOf e"
    by (auto simp: derived_def)
  with createTenant_existing [OF found, where n = n] found show ?thesis
    by (simp add: getTenantByEntityId_run toTenantData_def tenantIdOf_def schemaNameOf_def
        replaceHyphens_map)
next
  case unparsed
  with valid_quotable [OF assms(2)] show ?thesis by simp
next
  case (turned_down err)
  from createTenant_refused [OF turned_down]
    not_refused [OF reachable_derived [OF assms(1)] turned_down(1), of n] turned_down(3)
  show ?thesis by auto
next
  case stored
  from createTenant_new [OF stored] show ?thesis
    by (simp add: getTenantByEntityId_run filter_key_absent stored(1) toTenantData_def new_row_def
        tenantIdOf_def schemaNameOf_def replaceHyphens_map)
qed

theorem create_then_getByEntityId_witness:
  "reachable emptyRegistry \<and> validEntityId ''acme-1'' \<and>
   (\<exists>t w1. createTenant \<lparr>CreateTenantInput.entityId = ''acme-1'', entityName = ''Acme Co''\<rparr> emptyRegistry
              = (Inr (Some t), w1) \<and>
            fst (getTenantByEntityId ''acme-1'' w1) = Inr (Some t) \<and>
            schemaName t = ''tenant_entity_acme_1'' \<and> id' t = ''tenant_acme-1'')"
proof -
  note d = reachable_examples(1)
  have v: "validEntityId ''acme-1''" by (simp add: validEntityId_def alphanumeric_def)
  have s: "length ''acme-1'' \<le> 241 \<and> length ''Acme Co'' \<le> 255 \<and>
           (\<forall>r \<in> set (tenants emptyRegistry).
              entity_id r \<noteq> ''acme-1'' \<longrightarrow> schema_name r \<noteq> schemaNameOf ''acme-1'')"
    by (simp add: emptyRegistry_def)
  from create_then_getByEntityId [OF d v, of "''Acme Co''"] s
  obtain t w1 where c: "createTenant \<lparr>CreateTenantInput.entityId = ''acme-1'', entityName = ''Acme Co''\<rparr>
                          emptyRegistry = (Inr (Some t), w1)"
    by blast
  with create_then_getByEntityId [OF d v, of "''Acme Co''"]
  have "fst (getTenantByEntityId ''acme-1'' w1) = Inr (Some t) \<and>
        schemaName t = ''tenant_entity_acme_1'' \<and> id' t = ''tenant_acme-1''"
    by auto
  with c d v show ?thesis by blast
qed

subsection \<open>Registered tenants never share a schemaName\<close>



subsection \<open>Deleting a tenant\<close>



subsection \<open>The per-request binding of an inactive tenant\<close>

lemma acmeBound_eq:
  "fst (tenantMiddleware acmeRequest acmeCreated) =
     \<lparr>tenant = Some (requestTenant acme), resetOnFinish = True\<rparr>"
  "tenants acmeBound = [acme]"
  "search_path acmeBound = [''tenant_entity_acme_1'', ''public'']"
  by (simp_all add: acmeBound_def acmeRequest_def acmeCreated_eq tenantMiddleware_def raw_def
      acme_def quotable_def namespaceOf_plain)

text \<open>
  C4, as stated, fails. The middleware binds a request for \<^verbatim>\<open>acme-1\<close> and sets the
  \<^verbatim>\<open>search_path\<close> to the tenant's namespace; before that response has finished, the
  tenant is set inactive. A second request for \<^verbatim>\<open>acme-1\<close> is then left unbound, as the
  claim says, but nothing resets the \<^verbatim>\<open>search_path\<close>: it proceeds against the tenant's
  namespace, not against the shared one.
\<close>

theorem inactive_tenant_stale_search_path:
  "reachable acmeBound \<and> ''acme-1'' \<in> entity_id ` set (tenants acmeBound) \<and>
   orElse (header_x_tenant_id acmeRequest) (cookie_tenant_id acmeRequest) = Some ''acme-1'' \<and>
   acmeBoundInactive = snd (updateTenantStatus ''acme-1'' ''inactive'' acmeBound) \<and>
   fst (tenantMiddleware acmeRequest acmeBoundInactive) = unbound \<and>
   search_path (snd (tenantMiddleware acmeRequest acmeBoundInactive))
     = [''tenant_entity_acme_1'', ''public'']"
proof -
  have len: "length ''inactive'' \<le> 50" by simp
  have "tenants acmeBoundInactive = [acme\<lparr>status_col := ''inactive'', updated_at := clock acmeBound\<rparr>]"
    "search_path acmeBoundInactive = [''tenant_entity_acme_1'', ''public'']"
    by (simp_all add: acmeBoundInactive_def updateTenantStatus_run [OF len] acmeBound_eq acme_def)
  then have "fst (tenantMiddleware acmeRequest acmeBoundInactive) = unbound"
    "search_path (snd (tenantMiddleware acmeRequest acmeBoundInactive))
       = [''tenant_entity_acme_1'', ''public'']"
    by (simp_all add: tenantMiddleware_def acmeRequest_def raw_def acme_def)
  with reachable_examples(5) show ?thesis
    by (simp add: acmeBound_eq acme_def acmeRequest_def acmeBoundInactive_def)
qed

text \<open>
  C4, amended. Let a tenant with \<^verbatim>\<open>entityId\<close> \<open>e\<close> exist, and let a request carry \<open>e\<close> as
  its tenant identifier (the \<^verbatim>\<open>x-tenant-id\<close> header, or the \<^verbatim>\<open>tenant_id\<close> cookie when
  the header is absent or empty). After \<^verbatim>\<open>updateTenantStatus(e, 'inactive')\<close>, at any later
  time, the middleware binds nothing: \<^verbatim>\<open>req.tenant\<close> stays unset and no reset handler is
  registered, exactly as for a request without a tenant identifier. The only statement
  it issues is its \<^verbatim>\<open>SELECT\<close>; no schema switch occurs, so the \<^verbatim>\<open>search_path\<close> is the
  one from before the status update, and the request proceeds against the shared
  namespace exactly when that was the \<^verbatim>\<open>search_path\<close> before.
  \<^verbatim>\<open>getTenantByEntityId\<close> still returns the tenant, with status \<^verbatim>\<open>inactive\<close>.
\<close>

theorem inactive_tenant_unbound:
  assumes "e \<in> entity_id ` set (tenants w)"
    and "orElse (header_x_tenant_id req) (cookie_tenant_id req) = Some e"
  shows "\<exists>t w1.
           updateTenantStatus e ''inactive'' w = (Inr (Some t), w1) \<and> status t = ''inactive'' \<and>
           tenantMiddleware req (w1\<lparr>clock := c\<rparr>) =
             (unbound, w1\<lparr>clock := c,
                         issued := issued w1 @ (if e = [] then [] else [SelectActiveByEntityId e])\<rparr>) \<and>
           fst (tenantMiddleware req (w1\<lparr>clock := c\<rparr>)) =
             fst (tenantMiddleware \<lparr>header_x_tenant_id = None, cookie_tenant_id = None\<rparr> (w1\<lparr>clock := c\<rparr>)) \<and>
           search_path (snd (tenantMiddleware req (w1\<lparr>clock := c\<rparr>))) = search_path w \<and>
           (search_path (snd (tenantMiddleware req (w1\<lparr>clock := c\<rparr>))) = [''public'']
              \<longleftrightarrow> search_path w = [''public'']) \<and>
           (\<exists>t'. fst (getTenantByEntityId e (snd (tenantMiddleware req (w1\<lparr>clock := c\<rparr>)))) = Inr (Some t') \<and>
                 status t' = ''inactive'' \<and> entityId t' = e)"
proof -
  have len: "length ''inactive'' \<le> 50" by simp
  let ?f = "\<lambda>r. r\<lparr>status_col := ''inactive'', updated_at := clock w\<rparr>"
  let ?rows = "map (\<lambda>r. if entity_id r = e then ?f r else r) (tenants w)"
  from assms(1) obtain r rest where f: "filter (\<lambda>r. entity_id r = e) (tenants w) = r # rest"
    by (rule filter_present)
  have g: "filter (\<lambda>x. entity_id x = e) ?rows = ?f r # map ?f rest"
    by (simp add: filter_map_same_key f)
  obtain w1 where w1: "w1 = snd (updateTenantStatus e ''inactive'' w)" by simp
  have u: "updateTenantStatus e ''inactive'' w = (Inr (Some (toTenantData (?f r))), w1)"
    unfolding w1 by (simp add: updateTenantStatus_run [OF len] g)
  have t1: "tenants w1 = ?rows" and s1: "search_path w1 = search_path w"
    unfolding w1 by (simp_all add: updateTenantStatus_run [OF len])
  have m: "tenantMiddleware req (w1\<lparr>clock := c\<rparr>) =
             (unbound, w1\<lparr>clock := c,
                         issued := issued w1 @ (if e = [] then [] else [SelectActiveByEntityId e])\<rparr>)"
    using assms(2) by (simp add: tenantMiddleware_def raw_def t1 no_active_after_inactive)
  show ?thesis
    using u m g f filter_Cons_mem [OF f]
    by (simp add: tenantMiddleware_no_tenant s1 t1 getTenantByEntityId_run toTenantData_def)
qed

theorem inactive_tenant_unbound_witness:
  "''acme-1'' \<in> entity_id ` set (tenants acmeRegistry) \<and>
   orElse (header_x_tenant_id \<lparr>header_x_tenant_id = None, cookie_tenant_id = Some ''acme-1''\<rparr>)
          (cookie_tenant_id \<lparr>header_x_tenant_id = None, cookie_tenant_id = Some ''acme-1''\<rparr>)
     = Some ''acme-1'' \<and>
   (\<exists>t w1. updateTenantStatus ''acme-1'' ''inactive'' acmeRegistry = (Inr (Some t), w1) \<and>
      status t = ''inactive'' \<and>
      fst (tenantMiddleware \<lparr>header_x_tenant_id = None, cookie_tenant_id = Some ''acme-1''\<rparr>
             (w1\<lparr>clock := 12\<rparr>)) = unbound \<and>
      search_path (snd (tenantMiddleware \<lparr>header_x_tenant_id = None, cookie_tenant_id = Some ''acme-1''\<rparr>
             (w1\<lparr>clock := 12\<rparr>))) = [''public''])"
proof -
  let ?req = "\<lparr>header_x_tenant_id = None, cookie_tenant_id = Some ''acme-1''\<rparr>"
  have h1: "''acme-1'' \<in> entity_id ` set (tenants acmeRegistry)"
    by (simp add: acmeRegistry_def acme_def)
  have h2: "orElse (header_x_tenant_id ?req) (cookie_tenant_id ?req) = Some ''acme-1''"
    by simp
  have p: "search_path acmeRegistry = [''public'']" by (simp add: acmeRegistry_def)
  from inactive_tenant_unbound [OF h1 h2, of 12] h1 h2 p show ?thesis
    by (auto simp del: orElse.simps)
qed

subsection \<open>PATCH\<close>

text \<open>A \<^verbatim>\<open>status\<close> of 51 characters does not fit its column: the \<^verbatim>\<open>UPDATE\<close> is turned
  down, the handler answers 500 and the table is as before.\<close>

lemma PATCH_long_status:
  "PATCH ''acme-1'' \<lparr>PatchBody.entityName = None, status = Some (replicate 51 (CHR ''x''))\<rparr> pairRegistry =
     (\<lparr>statusCode = 500, json = ErrorOf StringDataRightTruncation\<rparr>,
      pairRegistry\<lparr>issued := [SelectByEntityId ''acme-1'',
        UpdateTenants [SetStatus (replicate 51 (CHR ''x'')), SetUpdatedAtNow] ''acme-1'']\<rparr>)"
proof -
  have f: "filter (\<lambda>r. entity_id r = ''acme-1'') (tenants pairRegistry) = acme # []"
    by (simp add: pairRegistry_def acme_def globex_def)
  have i: "issued pairRegistry = []" by (simp add: pairRegistry_def)
  show ?thesis
    using PATCH_too_long [OF f refl, of "\<lparr>PatchBody.entityName = None, status = Some (replicate 51 (CHR ''x''))\<rparr>"]
    by (simp add: i)
qed

text \<open>
  C10. For a \<^verbatim>\<open>PATCH\<close> of a tenant that exists, the answer is 200 or, when the storage
  engine turns the \<^verbatim>\<open>UPDATE\<close> down, 500; the table after it is the table before with one
  function applied to every row. That function never changes \<^verbatim>\<open>id\<close>, \<^verbatim>\<open>entity_id\<close>,
  \<^verbatim>\<open>schema_name\<close> or \<^verbatim>\<open>created_at\<close>; it leaves \<^verbatim>\<open>entity_name\<close> as it was when the body
  omits \<^verbatim>\<open>entityName\<close> or gives the empty string, and likewise \<^verbatim>\<open>status\<close>; an
  \<^verbatim>\<open>entity_name\<close> that changed is not empty; rows of other tenants are untouched.
  Namespaces and \<^verbatim>\<open>search_path\<close> stay. An answer of 500 leaves the table as it was.
  When the body gives neither field (absent or empty), the answer is 200, only the two
  lookups are issued, no \<^verbatim>\<open>UPDATE\<close>, and the answer carries the tenant as stored. When
  the values that the body gives fit their columns (\<^verbatim>\<open>entityName\<close> at most 255
  characters, \<^verbatim>\<open>status\<close> at most 50), the answer is 200 and the non-empty values given
  are the ones stored for the tenant.
\<close>

theorem patch_frame:
  assumes "e \<in> entity_id ` set (tenants w)"
  shows "\<exists>res w1 g.
     PATCH e b w = (res, w1) \<and> (statusCode res = 200 \<or> statusCode res = 500) \<and>
     tenants w1 = map g (tenants w) \<and>
     (\<forall>x. id_col (g x) = id_col x \<and> entity_id (g x) = entity_id x \<and>
          schema_name (g x) = schema_name x \<and> created_at (g x) = created_at x \<and>
          (PatchBody.entityName b = None \<or> PatchBody.entityName b = Some [] \<longrightarrow>
             entity_name (g x) = entity_name x) \<and>
          (PatchBody.status b = None \<or> PatchBody.status b = Some [] \<longrightarrow>
             status_col (g x) = status_col x) \<and>
          (entity_name (g x) = entity_name x \<or> entity_name (g x) \<noteq> []) \<and>
          (entity_id x \<noteq> e \<longrightarrow> g x = x)) \<and>
     schemas w1 = schemas w \<and> search_path w1 = search_path w \<and>
     (statusCode res = 500 \<longrightarrow> tenants w1 = tenants w) \<and>
     ((PatchBody.entityName b = None \<or> PatchBody.entityName b = Some []) \<and>
      (PatchBody.status b = None \<or> PatchBody.status b = Some []) \<longrightarrow>
        statusCode res = 200 \<and>
        w1 = w\<lparr>issued := issued w @ [SelectByEntityId e, SelectByEntityId e]\<rparr> \<and>
        (\<exists>r \<in> set (tenants w). entity_id r = e \<and> json res = TenantBody (toTenantData r))) \<and>
     ((\<forall>n. PatchBody.entityName b = Some n \<longrightarrow> length n \<le> 255) \<and>
      (\<forall>s. PatchBody.status b = Some s \<longrightarrow> length s \<le> 50) \<longrightarrow>
        statusCode res = 200 \<and>
        (\<forall>x. entity_id x = e \<longrightarrow>
           (\<forall>n. PatchBody.entityName b = Some n \<and> n \<noteq> [] \<longrightarrow> entity_name (g x) = n) \<and>
           (\<forall>s. PatchBody.status b = Some s \<and> s \<noteq> [] \<longrightarrow> status_col (g x) = s)))"
proof -
  from assms obtain r rest where f: "filter (\<lambda>r. entity_id r = e) (tenants w) = r # rest"
    by (rule filter_present)
  note r = filter_Cons_mem [OF f]
  define u where
    "u = pushIf (PatchBody.entityName b) SetEntityName @ pushIf (PatchBody.status b) SetStatus"
  have fit: "list_all fits (u @ [SetUpdatedAtNow]) \<longleftrightarrow>
     (\<forall>n. PatchBody.entityName b = Some n \<longrightarrow> length n \<le> 255) \<and>
     (\<forall>s. PatchBody.status b = Some s \<longrightarrow> length s \<le> 50)"
    unfolding u_def by (rule patch_fits)
  have empty: "u = [] \<longleftrightarrow>
      (PatchBody.entityName b = None \<or> PatchBody.entityName b = Some []) \<and>
      (PatchBody.status b = None \<or> PatchBody.status b = Some [])"
    unfolding u_def
    by (cases "PatchBody.entityName b"; cases "PatchBody.status b") (auto split: if_splits)
  consider (no_update) "u = []"
    | (updated) "u \<noteq> []" "list_all fits (u @ [SetUpdatedAtNow])"
    | (too_long) "u \<noteq> []" "\<not> list_all fits (u @ [SetUpdatedAtNow])"
    by blast
  then show ?thesis
  proof cases
    case no_update
    have run: "PATCH e b w = (\<lparr>statusCode = 200, json = TenantBody (toTenantData r)\<rparr>,
              w\<lparr>issued := issued w @ [SelectByEntityId e, SelectByEntityId e]\<rparr>)"
      by (rule PATCH_nothing [OF f no_update [unfolded u_def]])
    show ?thesis
      apply (rule exI [of _ "\<lparr>statusCode = 200, json = TenantBody (toTenantData r)\<rparr>"])
      apply (rule exI [of _ "w\<lparr>issued := issued w @ [SelectByEntityId e, SelectByEntityId e]\<rparr>"])
      apply (rule exI [of _ "\<lambda>x. x"])
      using run r no_update [unfolded empty] by auto
  next
    case updated
    define g where "g = assign_all (clock w) (u @ [SetUpdatedAtNow])"
    define h where "h = (\<lambda>x. if entity_id x = e then g x else x)"
    define w1 where "w1 = w\<lparr>tenants := map h (tenants w),
                issued := issued w @ [SelectByEntityId e,
                                      UpdateTenants (u @ [SetUpdatedAtNow]) e,
                                      SelectByEntityId e]\<rparr>"
    define res where "res = \<lparr>statusCode = 200, json = TenantBody (toTenantData (g r))\<rparr>"
    have present: "\<not> ((PatchBody.entityName b = None \<or> PatchBody.entityName b = Some []) \<and>
      (PatchBody.status b = None \<or> PatchBody.status b = Some []))"
      using updated(1) empty by simp
    have run: "PATCH e b w = (res, w1)"
      unfolding res_def w1_def h_def g_def
      by (rule PATCH_updated [OF f u_def updated])
    have code: "statusCode res = 200" "statusCode res \<noteq> 500" by (simp_all add: res_def)
    have rows: "tenants w1 = map h (tenants w)" by (simp add: w1_def)
    have rest: "schemas w1 = schemas w" "search_path w1 = search_path w" by (simp_all add: w1_def)
    have keys: "id_col (h x) = id_col x \<and> entity_id (h x) = entity_id x \<and>
          schema_name (h x) = schema_name x \<and> created_at (h x) = created_at x \<and>
          (entity_id x \<noteq> e \<longrightarrow> h x = x)" for x
      by (simp add: h_def g_def assign_all_frame)
    have name: "entity_name (h x) =
        (case PatchBody.entityName b of None \<Rightarrow> entity_name x
         | Some n \<Rightarrow> if entity_id x = e \<and> n \<noteq> [] then n else entity_name x)" for x
      unfolding h_def g_def u_def by (rule patch_entity_name)
    have stat: "status_col (h x) =
        (case PatchBody.status b of None \<Rightarrow> status_col x
         | Some n \<Rightarrow> if entity_id x = e \<and> n \<noteq> [] then n else status_col x)" for x
      unfolding h_def g_def u_def by (rule patch_status)
    have frame: "\<forall>x. id_col (h x) = id_col x \<and> entity_id (h x) = entity_id x \<and>
          schema_name (h x) = schema_name x \<and> created_at (h x) = created_at x \<and>
          (PatchBody.entityName b = None \<or> PatchBody.entityName b = Some [] \<longrightarrow>
             entity_name (h x) = entity_name x) \<and>
          (PatchBody.status b = None \<or> PatchBody.status b = Some [] \<longrightarrow>
             status_col (h x) = status_col x) \<and>
          (entity_name (h x) = entity_name x \<or> entity_name (h x) \<noteq> []) \<and>
          (entity_id x \<noteq> e \<longrightarrow> h x = x)"
      using keys by (auto simp: name stat split: option.splits)
    have stored: "\<forall>x. entity_id x = e \<longrightarrow>
           (\<forall>n. PatchBody.entityName b = Some n \<and> n \<noteq> [] \<longrightarrow> entity_name (h x) = n) \<and>
           (\<forall>s. PatchBody.status b = Some s \<and> s \<noteq> [] \<longrightarrow> status_col (h x) = s)"
      by (auto simp: name stat)
    from run code rows frame rest present stored show ?thesis by blast
  next
    case too_long
    define w1 where "w1 = w\<lparr>issued := issued w @ [SelectByEntityId e,
                                      UpdateTenants (u @ [SetUpdatedAtNow]) e]\<rparr>"
    define res where "res = \<lparr>statusCode = 500, json = ErrorOf StringDataRightTruncation\<rparr>"
    have present: "\<not> ((PatchBody.entityName b = None \<or> PatchBody.entityName b = Some []) \<and>
      (PatchBody.status b = None \<or> PatchBody.status b = Some []))"
      using too_long(1) empty by simp
    have unfit: "\<not> ((\<forall>n. PatchBody.entityName b = Some n \<longrightarrow> length n \<le> 255) \<and>
      (\<forall>s. PatchBody.status b = Some s \<longrightarrow> length s \<le> 50))"
      using too_long(2) fit by simp
    have run: "PATCH e b w = (res, w1)"
      unfolding res_def w1_def by (rule PATCH_too_long [OF f u_def too_long])
    have code: "statusCode res = 500" by (simp add: res_def)
    have rows: "tenants w1 = map (\<lambda>x. x) (tenants w)" "tenants w1 = tenants w"
      by (simp_all add: w1_def)
    have rest: "schemas w1 = schemas w" "search_path w1 = search_path w" by (simp_all add: w1_def)
    show ?thesis
      apply (rule exI [of _ res])
      apply (rule exI [of _ w1])
      apply (rule exI [of _ "\<lambda>x. x"])
      using run code rows rest present unfit by simp
  qed
qed

theorem patch_frame_witness:
  "''acme-1'' \<in> entity_id ` set (tenants pairRegistry) \<and>
   PATCH ''acme-1'' \<lparr>PatchBody.entityName = Some [], status = None\<rparr> pairRegistry =
     (\<lparr>statusCode = 200, json = TenantBody (toTenantData acme)\<rparr>,
      pairRegistry\<lparr>issued := [SelectByEntityId ''acme-1'', SelectByEntityId ''acme-1'']\<rparr>) \<and>
   (\<exists>res w1. PATCH ''acme-1'' \<lparr>PatchBody.entityName = Some [], status = Some ''inactive''\<rparr> pairRegistry
               = (res, w1) \<and> statusCode res = 200 \<and>
      map id_col (tenants w1) = [''tenant_acme-1'', ''tenant_globex''] \<and>
      map entity_name (tenants w1) = [''Acme Co'', ''Globex''] \<and>
      map status_col (tenants w1) = [''inactive'', ''active''] \<and>
      map created_at (tenants w1) = [0, 5])"
proof -
  have h: "''acme-1'' \<in> entity_id ` set (tenants pairRegistry)"
    by (simp add: pairRegistry_def acme_def globex_def)
  have c: "tenants pairRegistry = [acme, globex]" "issued pairRegistry = []"
    "entity_id acme = ''acme-1''" "entity_id globex = ''globex''"
    "id_col acme = ''tenant_acme-1''" "id_col globex = ''tenant_globex''"
    "entity_name acme = ''Acme Co''" "entity_name globex = ''Globex''"
    "status_col acme = ''active''" "status_col globex = ''active''"
    "created_at acme = 0" "created_at globex = 5"
    by (simp_all add: pairRegistry_def acme_def globex_def)
  from patch_frame [OF h, of "\<lparr>PatchBody.entityName = Some [], status = None\<rparr>"]
  obtain res w1 where 1:
    "PATCH ''acme-1'' \<lparr>PatchBody.entityName = Some [], status = None\<rparr> pairRegistry = (res, w1)"
    "statusCode res = 200"
    "w1 = pairRegistry\<lparr>issued := issued pairRegistry @ [SelectByEntityId ''acme-1'', SelectByEntityId ''acme-1'']\<rparr>"
    "\<exists>r \<in> set (tenants pairRegistry). entity_id r = ''acme-1'' \<and> json res = TenantBody (toTenantData r)"
    by auto
  from 1(4) c have "json res = TenantBody (toTenantData acme)" by auto
  with 1(2) have "res = \<lparr>statusCode = 200, json = TenantBody (toTenantData acme)\<rparr>" by simp
  with 1(1,3) c have first:
    "PATCH ''acme-1'' \<lparr>PatchBody.entityName = Some [], status = None\<rparr> pairRegistry =
     (\<lparr>statusCode = 200, json = TenantBody (toTenantData acme)\<rparr>,
      pairRegistry\<lparr>issued := [SelectByEntityId ''acme-1'', SelectByEntityId ''acme-1'']\<rparr>)"
    by simp
  from patch_frame [OF h, of "\<lparr>PatchBody.entityName = Some [], status = Some ''inactive''\<rparr>"]
  obtain res w1 g where 2:
    "PATCH ''acme-1'' \<lparr>PatchBody.entityName = Some [], status = Some ''inactive''\<rparr> pairRegistry = (res, w1)"
    "statusCode res = 200"
    "tenants w1 = map g (tenants pairRegistry)"
    "\<And>x. id_col (g x) = id_col x" "\<And>x. entity_name (g x) = entity_name x"
    "\<And>x. created_at (g x) = created_at x" "\<And>x. entity_id x \<noteq> ''acme-1'' \<Longrightarrow> g x = x"
    "\<And>x. entity_id x = ''acme-1'' \<Longrightarrow> status_col (g x) = ''inactive''"
    by auto
  have "map id_col (tenants w1) = [''tenant_acme-1'', ''tenant_globex''] \<and>
      map entity_name (tenants w1) = [''Acme Co'', ''Globex''] \<and>
      map status_col (tenants w1) = [''inactive'', ''active''] \<and>
      map created_at (tenants w1) = [0, 5]"
    using 2(3-8) c by simp
  with 2(1,2) have "PATCH ''acme-1'' \<lparr>PatchBody.entityName = Some [], status = Some ''inactive''\<rparr> pairRegistry
               = (res, w1) \<and> statusCode res = 200 \<and>
      map id_col (tenants w1) = [''tenant_acme-1'', ''tenant_globex''] \<and>
      map entity_name (tenants w1) = [''Acme Co'', ''Globex''] \<and>
      map status_col (tenants w1) = [''inactive'', ''active''] \<and>
      map created_at (tenants w1) = [0, 5]" by simp
  then have second: "\<exists>res w1. PATCH ''acme-1'' \<lparr>PatchBody.entityName = Some [], status = Some ''inactive''\<rparr> pairRegistry
               = (res, w1) \<and> statusCode res = 200 \<and>
      map id_col (tenants w1) = [''tenant_acme-1'', ''tenant_globex''] \<and>
      map entity_name (tenants w1) = [''Acme Co'', ''Globex''] \<and>
      map status_col (tenants w1) = [''inactive'', ''active''] \<and>
      map created_at (tenants w1) = [0, 5]"
    by - (rule exI, rule exI, assumption)
  from h first second show ?thesis by blast
qed

end
